theory Spec2Isabelle
  imports Main "HOL-Library.Sublist"
begin

section \<open>JavaScript values used by webtorrent-runner.js\<close>

text \<open>
  A string is a list of code units. HTTP header values reach the handler decoded as
  latin1, one code unit below 256 per byte, so \<^typ>\<open>char\<close> is the code unit.

  A number is either \<open>NaN\<close> or an integer. Every number the handler computes comes from
  \<open>parseInt\<close>, from \<open>video.length\<close> or from adding and subtracting those. The code
  computes with doubles; \<open>Num n\<close> is the double \<open>n\<close>, and reading, subtracting, adding
  and printing are those of the code as long as every number involved is \<open>safe\<close>, below
  \<open>2^53\<close> in absolute value. Beyond that the code rounds what it reads and prints
  exponents from \<open>1e21\<close>, and the model does not follow it: a statement about the numbers
  of a header the client chooses freely carries the bound, or speaks only of the status
  and of \<open>NaN\<close>, which are the same on both sides (a run of digits of any length is
  read as a number, never as \<open>NaN\<close>).
\<close>

datatype jsnum = NaN | Num int

definition safe :: "int \<Rightarrow> bool" where
  "safe n = (\<bar>n\<bar> < 2 ^ 53)"

fun js_sub :: "jsnum \<Rightarrow> jsnum \<Rightarrow> jsnum" where
  "js_sub (Num a) (Num b) = Num (a - b)"
| "js_sub _ _ = NaN"

fun js_add :: "jsnum \<Rightarrow> jsnum \<Rightarrow> jsnum" where
  "js_add (Num a) (Num b) = Num (a + b)"
| "js_add _ _ = NaN"

subsection \<open>Number to string, as a template literal does it\<close>

definition digit_char :: "nat \<Rightarrow> char" where
  "digit_char d = char_of (48 + d)"

fun dec_nat :: "nat \<Rightarrow> string" where
  "dec_nat n = (if n < 10 then [digit_char n] else dec_nat (n div 10) @ [digit_char (n mod 10)])"

declare dec_nat.simps [simp del]

definition dec_int :: "int \<Rightarrow> string" where
  "dec_int i = (if i < 0 then CHR ''-'' # dec_nat (nat (- i)) else dec_nat (nat i))"

text \<open>
  The decimal digits of a number: what the template literal prints for a safe number.
  (The code prints a double beyond \<open>2^53\<close> from its shortest digits and switches to
  exponent notation at \<open>1e21\<close>; see the note on numbers above.)
\<close>

fun to_string :: "jsnum \<Rightarrow> string" where
  "to_string NaN = ''NaN''"
| "to_string (Num i) = dec_int i"

subsection \<open>parseInt(s, 10)\<close>

text \<open>
  \<open>parseInt\<close> drops leading white space, reads an optional sign, then the longest run of
  decimal digits; with no digit there the result is \<open>NaN\<close>. Whatever follows the digits
  is ignored.
\<close>

definition is_white :: "char \<Rightarrow> bool" where
  "is_white c = (of_char c \<in> {9, 10, 11, 12, 13, 32, 160 :: nat})"

definition is_digit :: "char \<Rightarrow> bool" where
  "is_digit c = (48 \<le> (of_char c :: nat) \<and> (of_char c :: nat) \<le> 57)"

definition digit_val :: "char \<Rightarrow> int" where
  "digit_val c = int (of_char c) - 48"

text \<open>
  The value of a run of digits: what \<open>parseInt\<close> returns while that value is safe. (Beyond
  \<open>2^53\<close> the code returns the nearest double; see the note on numbers above.)
\<close>

definition digits_val :: "string \<Rightarrow> int" where
  "digits_val ds = foldl (\<lambda>a c. 10 * a + digit_val c) 0 ds"

definition parse_digits :: "string \<Rightarrow> int option" where
  "parse_digits s =
     (let z = takeWhile is_digit s in if z = [] then None else Some (digits_val z))"

definition parseInt :: "string \<Rightarrow> jsnum" where
  "parseInt str =
     (let s = dropWhile is_white str in
      case s of
        [] \<Rightarrow> NaN
      | c # cs \<Rightarrow>
          if c = CHR ''-'' then (case parse_digits cs of None \<Rightarrow> NaN | Some v \<Rightarrow> Num (- v))
          else if c = CHR ''+'' then (case parse_digits cs of None \<Rightarrow> NaN | Some v \<Rightarrow> Num v)
          else (case parse_digits s of None \<Rightarrow> NaN | Some v \<Rightarrow> Num v))"

text \<open>What \<open>parseInt\<close> needs to see: after the white space and an optional sign, a digit.\<close>

definition has_digits :: "string \<Rightarrow> bool" where
  "has_digits str =
     (case dropWhile is_white str of
        [] \<Rightarrow> False
      | c # cs \<Rightarrow>
          if c = CHR ''-'' \<or> c = CHR ''+'' then (case cs of [] \<Rightarrow> False | d # _ \<Rightarrow> is_digit d)
          else is_digit c)"

subsection \<open>String.prototype.replace, split and includes\<close>

text \<open>
  \<open>replace_first pat s\<close> is \<open>s.replace(/pat/, '')\<close> for a pattern of literal characters:
  the leftmost occurrence is removed, a string without one is returned unchanged.
\<close>

fun replace_first :: "string \<Rightarrow> string \<Rightarrow> string" where
  "replace_first pat [] = []"
| "replace_first pat (c # cs) =
     (if prefix pat (c # cs) then drop (length pat) (c # cs) else c # replace_first pat cs)"

text \<open>\<open>split_str sep s\<close> is \<open>s.split(sep)\<close> for a one-character separator.\<close>

fun split_str :: "char \<Rightarrow> string \<Rightarrow> string list" where
  "split_str sep [] = [[]]"
| "split_str sep (c # cs) =
     (if c = sep then [] # split_str sep cs
      else (case split_str sep cs of
              [] \<Rightarrow> [[c]]
            | p # ps \<Rightarrow> (c # p) # ps))"

fun includes_str :: "string \<Rightarrow> string \<Rightarrow> bool" where
  "includes_str [] sub = (sub = [])"
| "includes_str (c # cs) sub = (prefix sub (c # cs) \<or> includes_str cs sub)"

section \<open>The HTTP request handler (source lines 70 to 99)\<close>

record torrent_file =
  file_name :: string
  file_length :: int

record request =
  req_method :: string
  headers_range :: "string option"

datatype hvalue = HStr string | HNum jsnum

text \<open>
  A response is what the handler hands to \<open>res\<close>: the status of \<open>writeHead\<close>, the headers
  of \<open>setHeader\<close> followed by those of \<open>writeHead\<close>, and what it pipes into the response:
  nothing, \<open>video.createReadStream()\<close>, or \<open>video.createReadStream({start, end})\<close>.
\<close>

datatype body = NoBody | ReadAll | ReadRange jsnum jsnum

record response =
  status :: nat
  headers :: "(string \<times> hvalue) list"
  body :: body

text \<open>Array destructuring \<open>[startStr, endStr] = parts\<close>: a missing element is undefined.\<close>

definition startStr_of :: "string list \<Rightarrow> string option" where
  "startStr_of parts = (case parts of [] \<Rightarrow> None | a # _ \<Rightarrow> Some a)"

definition endStr_of :: "string list \<Rightarrow> string option" where
  "endStr_of parts = (case parts of a # b # _ \<Rightarrow> Some b | _ \<Rightarrow> None)"

text \<open>\<open>parseInt(undefined, 10)\<close> reads the string \<open>undefined\<close>, which has no digit.\<close>

definition parseInt_opt :: "string option \<Rightarrow> jsnum" where
  "parseInt_opt x = (case x of None \<Rightarrow> NaN | Some s \<Rightarrow> parseInt s)"

definition range_parts :: "string \<Rightarrow> string list" where
  "range_parts range' = split_str CHR ''-'' (replace_first ''bytes='' range')"

text \<open>The text of \<open>startStr\<close>, for stating when the start is \<open>NaN\<close>.\<close>

definition start_text :: "string \<Rightarrow> string" where
  "start_text range' = (case range_parts range' of [] \<Rightarrow> [] | a # _ \<Rightarrow> a)"

definition range_start :: "string \<Rightarrow> jsnum" where
  "range_start range' = parseInt_opt (startStr_of (range_parts range'))"

text \<open>\<open>endStr ? parseInt(endStr, 10) : size - 1\<close>: undefined and the empty string are falsy.\<close>

definition range_end :: "int \<Rightarrow> string \<Rightarrow> jsnum" where
  "range_end size' range' =
     (case endStr_of (range_parts range') of
        None \<Rightarrow> Num (size' - 1)
      | Some e \<Rightarrow> if e = [] then Num (size' - 1) else parseInt e)"

definition chunksize :: "jsnum \<Rightarrow> jsnum \<Rightarrow> jsnum" where
  "chunksize start end' = js_add (js_sub end' start) (Num 1)"

definition base_headers :: "(string \<times> hvalue) list" where
  "base_headers = [(''Accept-Ranges'', HStr ''bytes''), (''Content-Type'', HStr ''video/mp4'')]"

definition full_response :: "int \<Rightarrow> response" where
  "full_response size' =
     \<lparr>status = 200, headers = base_headers @ [(''Content-Length'', HNum (Num size'))],
      body = ReadAll\<rparr>"

definition content_range :: "jsnum \<Rightarrow> jsnum \<Rightarrow> int \<Rightarrow> string" where
  "content_range start end' size' =
     ''bytes '' @ to_string start @ ''-'' @ to_string end' @ ''/'' @ dec_int size'"

definition range_response :: "int \<Rightarrow> string \<Rightarrow> response" where
  "range_response size' range' =
     (let start = range_start range'; end' = range_end size' range' in
      \<lparr>status = 206,
       headers = base_headers @
         [(''Content-Range'', HStr (content_range start end' size')),
          (''Content-Length'', HNum (chunksize start end'))],
       body = ReadRange start end'\<rparr>)"

definition handler :: "torrent_file \<Rightarrow> request \<Rightarrow> response" where
  "handler video req =
     (if req_method req \<noteq> ''GET'' then \<lparr>status = 405, headers = [], body = NoBody\<rparr>
      else
        (case headers_range req of
           None \<Rightarrow> full_response (file_length video)
         | Some range' \<Rightarrow>
             if range' = [] then full_response (file_length video)
             else range_response (file_length video) range'))"

text \<open>Reading a header of a response: the value of the last field set under that name.\<close>

definition header :: "response \<Rightarrow> string \<Rightarrow> hvalue option" where
  "header r k = map_of (rev (headers r)) k"

text \<open>
  The Range header of the form \<open>bytes=start-end\<close>, \<open>end\<close> possibly absent, with both
  numbers in decimal, and the end it stands for in a file of the given length.
\<close>

definition range_header :: "int \<Rightarrow> int option \<Rightarrow> string" where
  "range_header start eo =
     ''bytes='' @ dec_int start @ ''-'' @ (case eo of None \<Rightarrow> [] | Some e \<Rightarrow> dec_int e)"

definition end_or_default :: "int \<Rightarrow> int option \<Rightarrow> int" where
  "end_or_default size' eo = (case eo of None \<Rightarrow> size' - 1 | Some e \<Rightarrow> e)"

text \<open>The Byte Range invariant \<open>0 \<le> start \<le> end < length\<close>, on the numbers of a response.\<close>

fun valid_range :: "jsnum \<Rightarrow> jsnum \<Rightarrow> int \<Rightarrow> bool" where
  "valid_range (Num a) (Num b) len = (0 \<le> a \<and> a \<le> b \<and> b < len)"
| "valid_range _ _ len = False"

definition served_valid :: "int \<Rightarrow> response \<Rightarrow> bool" where
  "served_valid len r = (case body r of ReadRange a b \<Rightarrow> valid_range a b len | _ \<Rightarrow> True)"

section \<open>Video selection (source line 61)\<close>

text \<open>
  \<open>/\.(mp4|mkv|avi|webm|m4v)$/i.test(f.name)\<close>: the name ends in a dot and one of the
  five extensions, letters compared without regard to ASCII case.
\<close>

definition lower :: "char \<Rightarrow> char" where
  "lower c = (if 65 \<le> (of_char c :: nat) \<and> (of_char c :: nat) \<le> 90
              then char_of ((of_char c :: nat) + 32) else c)"

definition extensions :: "string list" where
  "extensions = [''mp4'', ''mkv'', ''avi'', ''webm'', ''m4v'']"

definition is_video :: "string \<Rightarrow> bool" where
  "is_video name = list_ex (\<lambda>ext. suffix (CHR ''.'' # ext) (map lower name)) extensions"

definition find_video :: "torrent_file list \<Rightarrow> torrent_file option" where
  "find_video files = find (\<lambda>f. is_video (file_name f)) files"

section \<open>Module state, console output and effects\<close>

datatype timer = Undefined | Running | Cancelled

text \<open>The scratch directory \<open>downloads\<close>: missing, present but not listable, or its entries.\<close>

datatype dir = Absent | Unreadable | Dir "string list"

datatype line =
    Connecting
  | Torrent_name
  | No_video_file
  | Video_line string
  | Streaming_ready
  | Progress_line
  | Download_complete
  | Stream_hiccup string
  | VLC_launched
  | VLC_exited "int option"
  | Browser_launched
  | Shutting_down
  | HTTP_server_stopped
  | Client_destroy_error string
  | Torrent_client_destroyed
  | Cleaned
  | Cleanup_error
  | SIGINT_received
  | Client_error_line string

datatype effect =
    Print line
  | Client_add
  | Listen
  | SetInterval
  | Respond response
  | Spawn_vlc
  | Spawn_browser
  | ClearInterval_progress
  | ClearInterval_poll
  | Server_close
  | Client_destroy
  | Readdir
  | Rm string
  | Exit int
  | Uncaught_exception
  | Unhandled_rejection

text \<open>
  \<open>shutdown\<close> is an async function: a call runs to its first \<open>await\<close> and returns; the
  rest runs later, when the awaited promise settles. A suspended call is a task: the
  promise it waits for and its \<open>exitCode\<close> argument.
\<close>

datatype pc = Await_close | Await_grace | Await_readdir | Await_rm "string list"

record task =
  awaiting :: pc
  exitCode :: int

text \<open>
  The module's variables (\<open>server\<close> holds the video its handler closes over), whether the
  socket is bound, the scratch directory, the suspended \<open>shutdown\<close> calls, everything done
  so far, and the exit status once the process has ended. \<open>destroyed\<close> is the flag of
  the client object that \<open>client.destroy\<close> sets. The initial state is the one after the
  magnet URI has been accepted and the SIGINT handler installed, while \<open>fs.mkdir\<close> is
  pending; \<open>pollInterval\<close> is declared and never assigned.
\<close>

record state =
  torrent :: bool
  server :: "torrent_file option"
  client :: bool
  destroyed :: bool
  playerProc :: bool
  progressInterval :: timer
  pollInterval :: timer
  streamErrorLogged :: bool
  listening :: bool
  scratch :: dir
  tasks :: "task list"
  trace :: "effect list"
  exited :: "int option"

definition init :: "dir \<Rightarrow> state" where
  "init d =
     \<lparr>torrent = False, server = None, client = False, destroyed = False, playerProc = False,
      progressInterval = Undefined, pollInterval = Undefined, streamErrorLogged = False,
      listening = False, scratch = d, tasks = [], trace = [], exited = None\<rparr>"

definition emit :: "effect \<Rightarrow> state \<Rightarrow> state" where
  "emit e s = s\<lparr>trace := trace s @ [e]\<rparr>"

section \<open>logStreamError (source lines 124 to 129)\<close>

definition logStreamError :: "string \<Rightarrow> state \<Rightarrow> state" where
  "logStreamError message s =
     (if \<not> streamErrorLogged s \<and> includes_str message ''prematurely''
      then (emit (Print (Stream_hiccup message)) s)\<lparr>streamErrorLogged := True\<rparr>
      else s)"

section \<open>shutdown (source lines 187 to 223)\<close>

text \<open>
  Each function below is a stretch of \<open>shutdown\<close> between two suspension points. It
  returns the state and the promise the call now waits for, or \<open>None\<close> when the process
  has ended there.
\<close>

definition process_exit :: "int \<Rightarrow> state \<Rightarrow> state \<times> pc option" where
  "process_exit code s = ((emit (Exit code) s)\<lparr>exited := Some code\<rparr>, None)"

definition shutdown_cleanup :: "state \<Rightarrow> state \<times> pc option" where
  "shutdown_cleanup s = (emit Readdir s, Some Await_readdir)"

text \<open>
  \<open>client.destroy\<close> of the torrent library destroys the client once; called on a client
  that is already destroyed it throws (\<open>client already destroyed\<close>). The throw is inside
  the async \<open>shutdown\<close>, whose promise nobody handles: the rejection ends the process with
  status 1 as soon as the running callback has returned, and nothing of \<open>shutdown\<close> below
  that line runs.
\<close>

definition unhandled_rejection :: "state \<Rightarrow> state \<times> pc option" where
  "unhandled_rejection s = ((emit Unhandled_rejection s)\<lparr>exited := Some 1\<rparr>, None)"

definition shutdown_client :: "state \<Rightarrow> state \<times> pc option" where
  "shutdown_client s =
     (if client s
      then (if destroyed s then unhandled_rejection s
            else ((emit Client_destroy s)\<lparr>destroyed := True\<rparr>, Some Await_grace))
      else shutdown_cleanup s)"

definition shutdown_server :: "state \<Rightarrow> state \<times> pc option" where
  "shutdown_server s =
     (if server s \<noteq> None then (emit Server_close s, Some Await_close) else shutdown_client s)"

definition clear_timers :: "state \<Rightarrow> state" where
  "clear_timers s =
     (let s1 = (if progressInterval s \<noteq> Undefined
                then (emit ClearInterval_progress s)\<lparr>progressInterval := Cancelled\<rparr> else s)
      in if pollInterval s1 \<noteq> Undefined
         then (emit ClearInterval_poll s1)\<lparr>pollInterval := Cancelled\<rparr> else s1)"

definition shutdown_start :: "state \<Rightarrow> state \<times> pc option" where
  "shutdown_start s = shutdown_server (clear_timers (emit (Print Shutting_down) s))"

text \<open>
  Calling \<open>shutdown(exitCode)\<close>: the call runs to its first await and is suspended there,
  unless it has thrown before.
\<close>

definition shutdown :: "int \<Rightarrow> state \<Rightarrow> state" where
  "shutdown code s =
     (case shutdown_start s of
        (s', Some p) \<Rightarrow> s'\<lparr>tasks := tasks s' @ [\<lparr>awaiting = p, exitCode = code\<rparr>]\<rparr>
      | (s', None) \<Rightarrow> s')"

text \<open>\<open>fs.rm\<close> with \<open>force\<close> removes an entry and accepts that it is already gone.\<close>

definition remove_entries :: "string list \<Rightarrow> state \<Rightarrow> state" where
  "remove_entries gone s =
     (case scratch s of
        Dir entries \<Rightarrow> s\<lparr>scratch := Dir (filter (\<lambda>e. e \<notin> set gone) entries)\<rparr>
      | _ \<Rightarrow> s)"

text \<open>
  The awaited promise is fulfilled (for \<open>readdir\<close>: settled, a rejection goes to the
  \<open>catch\<close>) and the call goes on to its next await or to \<open>process.exit\<close>.
\<close>

definition shutdown_resume :: "pc \<Rightarrow> int \<Rightarrow> state \<Rightarrow> state \<times> pc option" where
  "shutdown_resume p code s =
     (case p of
        Await_close \<Rightarrow> shutdown_client (emit (Print HTTP_server_stopped) s)
      | Await_grace \<Rightarrow> shutdown_cleanup s
      | Await_readdir \<Rightarrow>
          (case scratch s of
             Absent \<Rightarrow> process_exit code s
           | Unreadable \<Rightarrow> process_exit code (emit (Print Cleanup_error) s)
           | Dir entries \<Rightarrow>
               if entries \<noteq> []
               then (foldl (\<lambda>s' e. emit (Rm e) s') s entries, Some (Await_rm entries))
               else process_exit code s)
      | Await_rm entries \<Rightarrow>
          process_exit code (emit (Print Cleaned) (remove_entries entries s)))"

text \<open>
  \<open>Promise.all\<close> rejects as soon as one \<open>fs.rm\<close> fails: the \<open>catch\<close> reports it and the
  process exits with the entries in \<open>gone\<close> removed by then.
\<close>

definition shutdown_rm_rejected :: "pc \<Rightarrow> int \<Rightarrow> string list \<Rightarrow> state \<Rightarrow> state \<times> pc option" where
  "shutdown_rm_rejected p code gone s =
     (case p of
        Await_rm entries \<Rightarrow>
          process_exit code
            (emit (Print Cleanup_error) (remove_entries (filter (\<lambda>e. e \<in> set entries) gone) s))
      | _ \<Rightarrow> (s, Some p))"

definition settle :: "nat \<Rightarrow> (pc \<Rightarrow> int \<Rightarrow> state \<Rightarrow> state \<times> pc option) \<Rightarrow> state \<Rightarrow> state" where
  "settle i k s =
     (if i < length (tasks s)
      then (let t = tasks s ! i in
            case k (awaiting t) (exitCode t) s of
              (s', Some p) \<Rightarrow> s'\<lparr>tasks := (tasks s')[i := t\<lparr>awaiting := p\<rparr>]\<rparr>
            | (s', None) \<Rightarrow> s')
      else s)"

section \<open>Startup, the torrent callback and the player (source lines 32 to 121, 134 to 181)\<close>

text \<open>
  After \<open>await fs.mkdir(...).catch(...)\<close>: the directory is there when \<open>mkdir\<close> succeeded,
  then the client is created and the magnet added.
\<close>

definition startup :: "bool \<Rightarrow> state \<Rightarrow> state" where
  "startup ok s =
     (let s1 = (if ok \<and> scratch s = Absent then s\<lparr>scratch := Dir []\<rparr> else s)
      in emit Client_add (emit (Print Connecting) (s1\<lparr>client := True\<rparr>)))"

definition launchPlayer :: "bool \<Rightarrow> state \<Rightarrow> state" where
  "launchPlayer vlc s =
     (if vlc then emit (Print VLC_launched) ((emit Spawn_vlc s)\<lparr>playerProc := True\<rparr>)
      else emit (Print Browser_launched) (emit Spawn_browser s))"

definition onlistening :: "bool \<Rightarrow> state \<Rightarrow> state" where
  "onlistening vlc s = launchPlayer vlc (emit (Print Streaming_ready) (s\<lparr>listening := True\<rparr>))"

text \<open>
  The callback of \<open>client.add\<close>. Without a video member it calls \<open>shutdown(1)\<close>, which
  returns at its first await, and goes on to line 67, where reading \<open>video.name\<close> of
  \<open>undefined\<close> throws a TypeError out of the callback: nothing below that line runs.
  The torrent library calls the callback from an event and does not catch, and the source
  installs no handler for uncaught exceptions: the process ends at once with status 1
  (as it does when \<open>shutdown(1)\<close> itself has thrown).
\<close>

definition ontorrent :: "torrent_file list \<Rightarrow> state \<Rightarrow> state" where
  "ontorrent files s =
     (let s1 = emit (Print Torrent_name) (s\<lparr>torrent := True\<rparr>) in
      case find_video files of
        None \<Rightarrow>
          (let s2 = shutdown 1 (emit (Print No_video_file) s1) in
           if exited s2 \<noteq> None then s2
           else (emit Uncaught_exception s2)\<lparr>exited := Some 1\<rparr>)
      | Some video \<Rightarrow>
          (let s2 = emit (Print (Video_line (file_name video))) s1;
               s3 = emit Listen (s2\<lparr>server := Some video\<rparr>)
           in (emit SetInterval s3)\<lparr>progressInterval := Running\<rparr>))"

section \<open>The event loop\<close>

text \<open>
  What the host delivers to the program, one callback at a time: the end of \<open>mkdir\<close>, the
  torrent's metadata, the bound socket, a timer tick, the end of the download, a request,
  a stream's error, a client error, the player's exit with its code, SIGINT, the callback
  of \<open>client.destroy\<close>, and the settling of the promise a suspended \<open>shutdown\<close> waits for.
  The last event is not a callback: the torrent library, which was given the scratch
  directory as its \<open>path\<close>, stores a member of the torrent there.
\<close>

fun add_entry :: "string \<Rightarrow> dir \<Rightarrow> dir" where
  "add_entry name Absent = Dir [name]"
| "add_entry name Unreadable = Unreadable"
| "add_entry name (Dir entries) = (if name \<in> set entries then Dir entries else Dir (entries @ [name]))"

datatype event =
    Mkdir_done bool
  | Torrent_ready "torrent_file list"
  | Listening bool
  | Progress_tick
  | Torrent_done
  | Request request
  | Stream_error string
  | Client_error string
  | Player_exit "int option"
  | Sigint
  | Destroy_done "string option"
  | Resume nat
  | Rm_rejected nat "string list"
  | Wrote string

fun dispatch :: "event \<Rightarrow> state \<Rightarrow> state" where
  "dispatch (Mkdir_done ok) s = (if client s then s else startup ok s)"
| "dispatch (Torrent_ready files) s =
     (if client s \<and> \<not> torrent s then ontorrent files s else s)"
| "dispatch (Listening vlc) s =
     (if server s \<noteq> None \<and> \<not> listening s then onlistening vlc s else s)"
| "dispatch Progress_tick s =
     (if progressInterval s = Running then emit (Print Progress_line) s else s)"
| "dispatch Torrent_done s = (if torrent s then emit (Print Download_complete) s else s)"
| "dispatch (Request req) s =
     (case server s of
        None \<Rightarrow> s
      | Some video \<Rightarrow> if listening s then emit (Respond (handler video req)) s else s)"
| "dispatch (Stream_error message) s = logStreamError message s"
| "dispatch (Client_error message) s =
     (if client s then shutdown 1 (emit (Print (Client_error_line message)) s) else s)"
| "dispatch (Player_exit code) s =
     (if playerProc s then shutdown 0 (emit (Print (VLC_exited code)) s) else s)"
| "dispatch Sigint s = shutdown 0 (emit (Print SIGINT_received) s)"
| "dispatch (Destroy_done err) s =
     (if Client_destroy \<in> set (trace s)
      then emit (Print (case err of None \<Rightarrow> Torrent_client_destroyed
                        | Some m \<Rightarrow> Client_destroy_error m)) s
      else s)"
| "dispatch (Resume i) s = settle i shutdown_resume s"
| "dispatch (Rm_rejected i gone) s = settle i (\<lambda>p code. shutdown_rm_rejected p code gone) s"
| "dispatch (Wrote name) s =
     (if client s then s\<lparr>scratch := add_entry name (scratch s)\<rparr> else s)"

text \<open>Once the process has exited nothing is delivered any more.\<close>

definition step :: "event \<Rightarrow> state \<Rightarrow> state" where
  "step e s = (if exited s \<noteq> None then s else dispatch e s)"

fun run :: "event list \<Rightarrow> state \<Rightarrow> state" where
  "run [] s = s"
| "run (e # es) s = run es (step e s)"

section \<open>Notions used to state the properties\<close>

text \<open>
  The callbacks that call \<open>shutdown\<close>, with the state in which the host can deliver the
  event, and the exit code each passes.
\<close>

fun fires :: "event \<Rightarrow> state \<Rightarrow> bool" where
  "fires (Client_error message) s = client s"
| "fires (Player_exit code) s = playerProc s"
| "fires Sigint s = True"
| "fires (Torrent_ready files) s = (client s \<and> \<not> torrent s \<and> find_video files = None)"
| "fires _ s = False"

fun trigger_code :: "event \<Rightarrow> int option" where
  "trigger_code (Client_error message) = Some 1"
| "trigger_code (Player_exit code) = Some 0"
| "trigger_code Sigint = Some 0"
| "trigger_code (Torrent_ready files) = (if find_video files = None then Some 1 else None)"
| "trigger_code _ = None"

text \<open>
  The number of triggers delivered along a run while the process is alive, and the number
  of those delivered in a state of a given kind (a timer has been set, a server exists).
\<close>

fun fired :: "event list \<Rightarrow> state \<Rightarrow> nat" where
  "fired [] s = 0"
| "fired (e # es) s = (if exited s = None \<and> fires e s then 1 else 0) + fired es (step e s)"

fun fired_in :: "(state \<Rightarrow> bool) \<Rightarrow> event list \<Rightarrow> state \<Rightarrow> nat" where
  "fired_in P [] s = 0"
| "fired_in P (e # es) s =
     (if exited s = None \<and> fires e s \<and> P s then 1 else 0) + fired_in P es (step e s)"

definition timer_set :: "state \<Rightarrow> bool" where
  "timer_set s = (progressInterval s \<noteq> Undefined)"

definition server_set :: "state \<Rightarrow> bool" where
  "server_set s = (server s \<noteq> None)"

fun is_termination :: "effect \<Rightarrow> bool" where
  "is_termination (Exit code) = True"
| "is_termination Uncaught_exception = True"
| "is_termination Unhandled_rejection = True"
| "is_termination _ = False"

fun is_exit :: "effect \<Rightarrow> bool" where
  "is_exit (Exit code) = True"
| "is_exit _ = False"

fun is_respond :: "effect \<Rightarrow> bool" where
  "is_respond (Respond r) = True"
| "is_respond _ = False"

fun is_hiccup :: "effect \<Rightarrow> bool" where
  "is_hiccup (Print (Stream_hiccup message)) = True"
| "is_hiccup _ = False"

fun is_write :: "event \<Rightarrow> bool" where
  "is_write (Wrote name) = True"
| "is_write _ = False"

text \<open>A shutdown has completed when one of its runs has reached \<open>process.exit\<close>.\<close>

definition completed :: "state \<Rightarrow> bool" where
  "completed s = list_ex is_exit (trace s)"

text \<open>
  Invariants of the event loop. A suspended \<open>shutdown\<close> that waits for its removals has
  listed at least what the directory still holds; a shutdown that completed without a
  cleanup error left no entry behind; the client is destroyed at most once; while a single
  \<open>shutdown\<close> with code 0 is under way and has not yet destroyed the client, nothing can end
  the process but its \<open>process.exit(0)\<close>; before the metadata has arrived no server exists
  and nothing has been answered; the flag of \<open>logStreamError\<close> counts the lines it printed.
\<close>

definition listed :: "state \<Rightarrow> bool" where
  "listed s =
     (\<forall>t \<in> set (tasks s). \<forall>es. awaiting t = Await_rm es \<longrightarrow>
        (\<exists>xs. scratch s = Dir xs \<and> set xs \<subseteq> set es))"

definition cleanup_inv :: "state \<Rightarrow> bool" where
  "cleanup_inv s =
     ((completed s \<longrightarrow> exited s \<noteq> None) \<and> listed s \<and>
      (completed s \<and> Print Cleanup_error \<notin> set (trace s) \<longrightarrow>
         scratch s = Absent \<or> scratch s = Dir []))"

definition destroyed_once :: "state \<Rightarrow> bool" where
  "destroyed_once s = (count_list (trace s) Client_destroy = (if destroyed s then 1 else 0))"

definition lone_zero :: "state \<Rightarrow> bool" where
  "lone_zero s =
     (length (tasks s) \<le> 1 \<and> (\<forall>t \<in> set (tasks s). exitCode t = 0) \<and>
      (destroyed s \<longrightarrow> (\<forall>t \<in> set (tasks s). awaiting t \<noteq> Await_close)) \<and>
      (exited s = None \<or> exited s = Some 0))"

definition unjoined :: "state \<Rightarrow> bool" where
  "unjoined s = (\<not> torrent s \<longrightarrow> server s = None \<and> \<not> list_ex is_respond (trace s))"

definition logged_once :: "state \<Rightarrow> bool" where
  "logged_once s =
     (length (filter is_hiccup (trace s)) = (if streamErrorLogged s then 1 else 0) \<and>
      (\<forall>m. Print (Stream_hiccup m) \<in> set (trace s) \<longrightarrow> includes_str m ''prematurely''))"

section \<open>Inputs used in the examples\<close>

definition movie_mkv :: torrent_file where
  "movie_mkv = \<lparr>file_name = ''movie.mkv'', file_length = 5000000\<rparr>"

definition readme_txt :: torrent_file where
  "readme_txt = \<lparr>file_name = ''readme.txt'', file_length = 10\<rparr>"

text \<open>A session up to the player running: startup, metadata, bound socket, VLC spawned.\<close>

definition playing :: "event list" where
  "playing = [Mkdir_done True, Torrent_ready [readme_txt, movie_mkv], Listening True]"

section \<open>Facts about the string functions\<close>

lemma replace_first_prefix: "pat \<noteq> [] \<Longrightarrow> replace_first pat (pat @ rest) = rest"
  by (cases pat) simp_all

lemma of_char_digit_char: "d < 10 \<Longrightarrow> (of_char (digit_char d) :: nat) = 48 + d"
  by (simp add: digit_char_def)

lemma is_digit_digit_char: "d < 10 \<Longrightarrow> is_digit (digit_char d)"
  by (simp add: is_digit_def of_char_digit_char)

lemma digit_val_digit_char: "d < 10 \<Longrightarrow> digit_val (digit_char d) = int d"
  by (simp add: digit_val_def of_char_digit_char)

lemma dec_nat_digits: "\<forall>c \<in> set (dec_nat n). is_digit c"
proof (induction n rule: dec_nat.induct)
  case (1 n)
  show ?case
  proof (cases "n < 10")
    case True
    then show ?thesis by (simp add: dec_nat.simps [of n] is_digit_digit_char)
  next
    case False
    with 1 show ?thesis by (simp add: dec_nat.simps [of n] is_digit_digit_char)
  qed
qed

lemma dec_nat_nonempty: "dec_nat n \<noteq> []"
  by (subst dec_nat.simps) simp

lemma digits_val_snoc: "digits_val (ds @ [c]) = 10 * digits_val ds + digit_val c"
  by (simp add: digits_val_def)

lemma digits_val_dec_nat: "digits_val (dec_nat n) = int n"
proof (induction n rule: dec_nat.induct)
  case (1 n)
  show ?case
  proof (cases "n < 10")
    case True
    then show ?thesis by (simp add: dec_nat.simps [of n] digits_val_def digit_val_digit_char)
  next
    case False
    with 1 have "digits_val (dec_nat (n div 10)) = int (n div 10)" by simp
    with False show ?thesis
      by (simp add: dec_nat.simps [of n] digits_val_snoc digit_val_digit_char zdiv_int zmod_int)
  qed
qed

lemma is_digit_not_special: "is_digit c \<Longrightarrow> c \<noteq> CHR ''-'' \<and> c \<noteq> CHR ''+'' \<and> \<not> is_white c"
  by (auto simp: is_digit_def is_white_def)

lemma parse_digits_dec_nat: "parse_digits (dec_nat n) = Some (int n)"
proof -
  have tw: "takeWhile is_digit (dec_nat n) = dec_nat n"
    using dec_nat_digits by (simp add: takeWhile_eq_all_conv)
  show ?thesis unfolding parse_digits_def tw
    by (simp add: dec_nat_nonempty digits_val_dec_nat)
qed

lemma parseInt_dec_nat: "parseInt (dec_nat n) = Num (int n)"
proof -
  obtain c cs where eq: "dec_nat n = c # cs" using dec_nat_nonempty by (cases "dec_nat n") auto
  then have "is_digit c" using dec_nat_digits [of n] by simp
  then have c: "c \<noteq> CHR ''-''" "c \<noteq> CHR ''+''" "\<not> is_white c" using is_digit_not_special by auto
  have "parse_digits (c # cs) = Some (int n)" using parse_digits_dec_nat [of n] eq by simp
  with c eq show ?thesis by (simp add: parseInt_def)
qed

lemma split_str_no_sep: "sep \<notin> set s \<Longrightarrow> split_str sep s = [s]"
  by (induction s) auto

lemma split_str_first: "sep \<notin> set a \<Longrightarrow> split_str sep (a @ sep # b) = a # split_str sep b"
  by (induction a) auto

lemma dec_nat_no_dash: "CHR ''-'' \<notin> set (dec_nat n)"
  using dec_nat_digits [of n] is_digit_not_special by blast


lemma dec_int_nonneg: "0 \<le> i \<Longrightarrow> dec_int i = dec_nat (nat i)"
  by (simp add: dec_int_def)

lemma parseInt_dec_int: "0 \<le> i \<Longrightarrow> parseInt (dec_int i) = Num i"
  by (simp add: dec_int_nonneg parseInt_dec_nat)

lemma dec_int_no_dash: "0 \<le> i \<Longrightarrow> CHR ''-'' \<notin> set (dec_int i)"
  by (simp add: dec_int_nonneg dec_nat_no_dash)

lemma dec_int_nonempty: "dec_int i \<noteq> []"
  by (simp add: dec_int_def dec_nat_nonempty)

lemma range_parts_header_Some:
  assumes "0 \<le> start" "0 \<le> e"
  shows "range_parts (range_header start (Some e)) = [dec_int start, dec_int e]"
proof -
  have "range_parts (range_header start (Some e)) =
        split_str CHR ''-'' (dec_int start @ CHR ''-'' # dec_int e)"
    using replace_first_prefix [of "''bytes=''" "dec_int start @ CHR ''-'' # dec_int e"]
    by (simp add: range_parts_def range_header_def)
  also have "\<dots> = dec_int start # split_str CHR ''-'' (dec_int e)"
    using assms(1) by (intro split_str_first dec_int_no_dash)
  also have "split_str CHR ''-'' (dec_int e) = [dec_int e]"
    using assms(2) by (intro split_str_no_sep dec_int_no_dash)
  finally show ?thesis .
qed

lemma range_parts_header_None:
  assumes "0 \<le> start"
  shows "range_parts (range_header start None) = [dec_int start, []]"
proof -
  have "range_parts (range_header start None) =
        split_str CHR ''-'' (dec_int start @ CHR ''-'' # [])"
    using replace_first_prefix [of "''bytes=''" "dec_int start @ CHR ''-'' # []"]
    by (simp add: range_parts_def range_header_def)
  also have "\<dots> = dec_int start # split_str CHR ''-'' []"
    using assms(1) by (intro split_str_first dec_int_no_dash)
  finally show ?thesis by simp
qed

lemma range_start_header:
  assumes "0 \<le> start" "0 \<le> end_or_default size' eo"
  shows "range_start (range_header start eo) = Num start"
proof (cases eo)
  case None
  then show ?thesis
    using assms by (simp add: range_start_def range_parts_header_None startStr_of_def
        parseInt_opt_def parseInt_dec_int)
next
  case (Some e)
  then show ?thesis
    using assms by (simp add: range_start_def range_parts_header_Some startStr_of_def
        parseInt_opt_def parseInt_dec_int end_or_default_def)
qed

lemma range_end_header:
  assumes "0 \<le> start" "0 \<le> end_or_default size' eo"
  shows "range_end size' (range_header start eo) = Num (end_or_default size' eo)"
proof (cases eo)
  case None
  then show ?thesis
    using assms by (simp add: range_end_def range_parts_header_None endStr_of_def
        end_or_default_def)
next
  case (Some e)
  then show ?thesis
    using assms by (simp add: range_end_def range_parts_header_Some endStr_of_def
        parseInt_dec_int end_or_default_def dec_int_nonempty)
qed

lemma range_header_nonempty: "range_header start eo \<noteq> []"
  by (simp add: range_header_def)

section \<open>Range requests\<close>

text \<open>
  C4. A GET request whose Range header is \<open>bytes=start-end\<close> with
  \<open>0 \<le> start \<le> end < length\<close>, the end defaulting to \<open>length - 1\<close> when it is left out,
  is answered with status 206, Content-Range \<open>bytes start-end/length\<close> and Content-Length
  \<open>end - start + 1\<close>; the body is the read of exactly that range.
\<close>

theorem range_request_206:
  assumes "0 \<le> start" and "start \<le> e" and "e < file_length video"
    and "e = end_or_default (file_length video) eo"
  shows "handler video \<lparr>req_method = ''GET'', headers_range = Some (range_header start eo)\<rparr> =
    \<lparr>status = 206,
     headers = [(''Accept-Ranges'', HStr ''bytes''), (''Content-Type'', HStr ''video/mp4''),
       (''Content-Range'',
          HStr (''bytes '' @ dec_int start @ ''-'' @ dec_int e @ ''/'' @ dec_int (file_length video))),
       (''Content-Length'', HNum (Num (e - start + 1)))],
     body = ReadRange (Num start) (Num e)\<rparr>"
proof -
  have e0: "0 \<le> end_or_default (file_length video) eo" using assms by simp
  have s: "range_start (range_header start eo) = Num start"
    using assms(1) e0 by (rule range_start_header)
  have e: "range_end (file_length video) (range_header start eo) = Num e"
    using range_end_header [OF assms(1) e0] assms(4) by simp
  show ?thesis
    by (simp add: handler_def range_header_nonempty range_response_def s e Let_def
        base_headers_def content_range_def chunksize_def)
qed

lemma digit_char_values:
  "digit_char 0 = CHR ''0''" "digit_char 1 = CHR ''1''" "digit_char 2 = CHR ''2''"
  "digit_char 3 = CHR ''3''" "digit_char 4 = CHR ''4''" "digit_char 5 = CHR ''5''"
  "digit_char 6 = CHR ''6''" "digit_char 7 = CHR ''7''" "digit_char 8 = CHR ''8''"
  "digit_char 9 = CHR ''9''" "digit_char (Suc 0) = CHR ''1''"
  by (rule of_char_eqI [where ?'a = nat], simp add: digit_char_def)+

text \<open>The scenario of the specification: bytes 1000 to 1999 of a file of 5,000,000 bytes.\<close>

theorem range_request_206_witness:
  "handler \<lparr>file_name = ''movie.mkv'', file_length = 5000000\<rparr>
      \<lparr>req_method = ''GET'', headers_range = Some ''bytes=1000-1999''\<rparr> =
    \<lparr>status = 206,
     headers = [(''Accept-Ranges'', HStr ''bytes''), (''Content-Type'', HStr ''video/mp4''),
       (''Content-Range'', HStr ''bytes 1000-1999/5000000''),
       (''Content-Length'', HNum (Num 1000))],
     body = ReadRange (Num 1000) (Num 1999)\<rparr>"
proof -
  have d: "dec_int 1000 = ''1000''" "dec_int 1999 = ''1999''" "dec_int 5000000 = ''5000000''"
    by (simp_all add: dec_int_def dec_nat.simps digit_char_values)
  show ?thesis
    using range_request_206 [of 1000 1999 "\<lparr>file_name = ''movie.mkv'', file_length = 5000000\<rparr>" "Some 1999"]
    by (simp add: range_header_def end_or_default_def d)
qed


lemmas handler_eval =
  handler_def range_response_def range_start_def range_end_def range_parts_def startStr_of_def
  endStr_of_def parseInt_opt_def parseInt_def parse_digits_def digits_val_def digit_val_def
  is_digit_def is_white_def chunksize_def content_range_def dec_int_def base_headers_def
  full_response_def dec_nat.simps digit_char_values header_def

text \<open>
  A Range header that is not of the form \<open>bytes=start-end\<close> is answered neither with 416
  nor with the full content: the handler sends a 206 whose bounds are \<open>NaN\<close>.
\<close>

theorem malformed_range_nan_206:
  "handler \<lparr>file_name = ''movie.mkv'', file_length = 100\<rparr>
      \<lparr>req_method = ''GET'', headers_range = Some ''bytes=abc-def''\<rparr> =
    \<lparr>status = 206,
     headers = [(''Accept-Ranges'', HStr ''bytes''), (''Content-Type'', HStr ''video/mp4''),
       (''Content-Range'', HStr ''bytes NaN-NaN/100''),
       (''Content-Length'', HNum NaN)],
     body = ReadRange NaN NaN\<rparr>"
  by (simp add: handler_eval)

lemma takeWhile_digit_Nil: "(takeWhile is_digit s = []) = (case s of [] \<Rightarrow> True | d # _ \<Rightarrow> \<not> is_digit d)"
  by (cases s) simp_all

lemma parseInt_NaN_iff: "(parseInt str = NaN) = (\<not> has_digits str)"
proof (cases "dropWhile is_white str")
  case Nil
  show ?thesis
    by (simp only: parseInt_def has_digits_def Let_def Nil list.case simp_thms)
next
  case (Cons c cs)
  have sign: "c = CHR ''-'' \<or> c = CHR ''+'' \<Longrightarrow> \<not> is_digit c"
    by (auto simp: is_digit_def)
  show ?thesis
  proof (cases "c = CHR ''-'' \<or> c = CHR ''+''")
    case True
    with Cons show ?thesis
      by (cases cs) (auto simp: parseInt_def has_digits_def parse_digits_def Let_def)
  next
    case False
    with Cons show ?thesis
      by (auto simp: parseInt_def has_digits_def parse_digits_def Let_def)
  qed
qed

lemma range_parts_nonempty: "range_parts r \<noteq> []"
proof -
  have "split_str sep s \<noteq> []" for sep s
    by (induction s) (auto split: list.splits)
  then show ?thesis by (simp add: range_parts_def)
qed

lemma range_start_text: "range_start r = parseInt (start_text r)"
  using range_parts_nonempty [of r]
  by (cases "range_parts r") (simp_all add: range_start_def start_text_def startStr_of_def
      parseInt_opt_def)

text \<open>
  C5, as the code behaves. The handler follows one policy for every non-empty Range
  header, well formed or not: it answers 206, never 416 and never the full content.
  Nothing is validated: a start without a decimal digit to read is \<open>NaN\<close>, and a bound that
  is \<open>NaN\<close> is sent as such, in a Content-Range that reads \<open>bytes NaN-...\<close>, with
  Content-Length \<open>NaN\<close> and a read from or to \<open>NaN\<close>.
\<close>

theorem nonempty_range_206_nan_bounds:
  assumes "range' \<noteq> []"
  shows "status (handler video \<lparr>req_method = ''GET'', headers_range = Some range'\<rparr>) = 206
    \<and> (range_start range' = NaN) = (\<not> has_digits (start_text range'))
    \<and> (range_start range' = NaN \<longrightarrow>
        header (handler video \<lparr>req_method = ''GET'', headers_range = Some range'\<rparr>)
          ''Content-Length'' = Some (HNum NaN) \<and>
        (\<exists>rest. header (handler video \<lparr>req_method = ''GET'', headers_range = Some range'\<rparr>)
          ''Content-Range'' = Some (HStr (''bytes NaN-'' @ rest))) \<and>
        (\<exists>e. body (handler video \<lparr>req_method = ''GET'', headers_range = Some range'\<rparr>) =
          ReadRange NaN e))
    \<and> (range_end (file_length video) range' = NaN \<longrightarrow>
        header (handler video \<lparr>req_method = ''GET'', headers_range = Some range'\<rparr>)
          ''Content-Length'' = Some (HNum NaN) \<and>
        (\<exists>s. body (handler video \<lparr>req_method = ''GET'', headers_range = Some range'\<rparr>) =
          ReadRange s NaN))"
proof -
  let ?r = "handler video \<lparr>req_method = ''GET'', headers_range = Some range'\<rparr>"
  have r: "?r = range_response (file_length video) range'"
    using assms by (simp add: handler_def)
  have a: "status ?r = 206"
    by (simp add: r range_response_def Let_def)
  have b: "(range_start range' = NaN) = (\<not> has_digits (start_text range'))"
    by (simp add: range_start_text parseInt_NaN_iff)
  have c: "header ?r ''Content-Length'' = Some (HNum NaN)"
    "\<exists>rest. header ?r ''Content-Range'' = Some (HStr (''bytes NaN-'' @ rest))"
    "\<exists>e. body ?r = ReadRange NaN e"
    if "range_start range' = NaN"
    using that
    by (simp_all add: r range_response_def Let_def header_def base_headers_def
        content_range_def chunksize_def)
  have d: "header ?r ''Content-Length'' = Some (HNum NaN)" "\<exists>s. body ?r = ReadRange s NaN"
    if "range_end (file_length video) range' = NaN"
    using that
    by (cases "range_start range'";
        simp add: r range_response_def Let_def header_def base_headers_def chunksize_def)+
  from a b c d show ?thesis by blast
qed

text \<open>At the header \<open>garbage\<close> the start has no digit and is \<open>NaN\<close>; the end defaults to 99.\<close>

theorem nonempty_range_206_nan_bounds_witness:
  "status (handler \<lparr>file_name = ''movie.mkv'', file_length = 100\<rparr>
      \<lparr>req_method = ''GET'', headers_range = Some ''garbage''\<rparr>) = 206
   \<and> start_text ''garbage'' = ''garbage''
   \<and> \<not> has_digits ''garbage''
   \<and> range_start ''garbage'' = NaN
   \<and> header (handler \<lparr>file_name = ''movie.mkv'', file_length = 100\<rparr>
      \<lparr>req_method = ''GET'', headers_range = Some ''garbage''\<rparr>) ''Content-Length'' =
      Some (HNum NaN)
   \<and> range_end 100 ''bytes=5-x'' = NaN
   \<and> header (handler \<lparr>file_name = ''movie.mkv'', file_length = 100\<rparr>
      \<lparr>req_method = ''GET'', headers_range = Some ''bytes=5-x''\<rparr>) ''Content-Length'' =
      Some (HNum NaN)"
proof -
  let ?v = "\<lparr>file_name = ''movie.mkv'', file_length = 100\<rparr>"
  have t: "start_text ''garbage'' = ''garbage''"
    by (simp add: start_text_def range_parts_def)
  have h: "\<not> has_digits ''garbage''"
    by (simp add: has_digits_def is_white_def is_digit_def)
  have e: "range_end (file_length ?v) ''bytes=5-x'' = NaN"
    by (simp add: handler_eval)
  note g = nonempty_range_206_nan_bounds [of "''garbage''" ?v]
  note x = nonempty_range_206_nan_bounds [of "''bytes=5-x''" ?v]
  from g t h have s: "range_start ''garbage'' = NaN" by simp
  from g have st: "status (handler ?v \<lparr>req_method = ''GET'', headers_range = Some ''garbage''\<rparr>) = 206"
    by simp
  from g s have cl: "header (handler ?v \<lparr>req_method = ''GET'', headers_range = Some ''garbage''\<rparr>)
      ''Content-Length'' = Some (HNum NaN)"
    by simp
  from x e have cx: "header (handler ?v \<lparr>req_method = ''GET'', headers_range = Some ''bytes=5-x''\<rparr>)
      ''Content-Length'' = Some (HNum NaN)"
    by simp
  from st t h s cl e cx show ?thesis by simp
qed

text \<open>
  Bounds that break \<open>0 \<le> start \<le> end < length\<close> are served as they are: a start beyond
  the end gives a 206 with a negative Content-Length, an end beyond the file a 206 whose
  Content-Range leaves the file.
\<close>

theorem invalid_bounds_served_206:
  "handler \<lparr>file_name = ''movie.mkv'', file_length = 100\<rparr>
      \<lparr>req_method = ''GET'', headers_range = Some ''bytes=10-5''\<rparr> =
    \<lparr>status = 206,
     headers = [(''Accept-Ranges'', HStr ''bytes''), (''Content-Type'', HStr ''video/mp4''),
       (''Content-Range'', HStr ''bytes 10-5/100''),
       (''Content-Length'', HNum (Num (- 4)))],
     body = ReadRange (Num 10) (Num 5)\<rparr>
   \<and> handler \<lparr>file_name = ''movie.mkv'', file_length = 100\<rparr>
      \<lparr>req_method = ''GET'', headers_range = Some ''bytes=0-999''\<rparr> =
    \<lparr>status = 206,
     headers = [(''Accept-Ranges'', HStr ''bytes''), (''Content-Type'', HStr ''video/mp4''),
       (''Content-Range'', HStr ''bytes 0-999/100''),
       (''Content-Length'', HNum (Num 1000))],
     body = ReadRange (Num 0) (Num 999)\<rparr>
   \<and> \<not> valid_range (Num 10) (Num 5) 100 \<and> \<not> valid_range (Num 0) (Num 999) 100"
  by (simp add: handler_eval)

text \<open>
  C6, as the code behaves. A 206 response serves the bounds of the Range header as they
  are written, neither checked nor clamped: for a header \<open>bytes=a-b\<close> with decimal numbers
  (safe ones, and a safe length) the response has Content-Range \<open>bytes a-b/length\<close>,
  Content-Length \<open>b - a + 1\<close> and reads the bytes \<open>a\<close> to \<open>b\<close>, whatever the order of \<open>a\<close> and
  \<open>b\<close> and whatever the length. So the served range satisfies
  \<open>0 \<le> start \<le> end < length\<close> exactly when the requested bounds do.
\<close>

theorem requested_bounds_served_unchecked:
  assumes "0 \<le> a" and "safe a" and "0 \<le> b" and "safe b"
    and "0 \<le> file_length video" and "safe (file_length video)"
  shows "handler video \<lparr>req_method = ''GET'', headers_range = Some (range_header a (Some b))\<rparr> =
      \<lparr>status = 206,
       headers = [(''Accept-Ranges'', HStr ''bytes''), (''Content-Type'', HStr ''video/mp4''),
         (''Content-Range'',
            HStr (''bytes '' @ dec_int a @ ''-'' @ dec_int b @ ''/'' @ dec_int (file_length video))),
         (''Content-Length'', HNum (Num (b - a + 1)))],
       body = ReadRange (Num a) (Num b)\<rparr>
    \<and> served_valid (file_length video)
        (handler video \<lparr>req_method = ''GET'', headers_range = Some (range_header a (Some b))\<rparr>) =
      (a \<le> b \<and> b < file_length video)"
proof -
  have b0: "0 \<le> end_or_default (file_length video) (Some b)"
    using assms(3) by (simp add: end_or_default_def)
  have s: "range_start (range_header a (Some b)) = Num a"
    using assms(1) b0 by (rule range_start_header)
  have e: "range_end (file_length video) (range_header a (Some b)) = Num b"
    using range_end_header [OF assms(1) b0] by (simp add: end_or_default_def)
  have r: "handler video \<lparr>req_method = ''GET'', headers_range = Some (range_header a (Some b))\<rparr> =
      \<lparr>status = 206,
       headers = [(''Accept-Ranges'', HStr ''bytes''), (''Content-Type'', HStr ''video/mp4''),
         (''Content-Range'',
            HStr (''bytes '' @ dec_int a @ ''-'' @ dec_int b @ ''/'' @ dec_int (file_length video))),
         (''Content-Length'', HNum (Num (b - a + 1)))],
       body = ReadRange (Num a) (Num b)\<rparr>"
    by (simp add: handler_def range_header_nonempty range_response_def s e Let_def
        base_headers_def content_range_def chunksize_def)
  show ?thesis
    unfolding r using assms(1) by (simp add: served_valid_def)
qed

text \<open>
  At \<open>bytes=10-5\<close> the served range is 10 to 5, and at \<open>bytes=0-999\<close> it runs past the end
  of a file of 100 bytes.
\<close>

theorem requested_bounds_served_unchecked_witness:
  "handler \<lparr>file_name = ''movie.mkv'', file_length = 100\<rparr>
      \<lparr>req_method = ''GET'', headers_range = Some ''bytes=10-5''\<rparr> =
    \<lparr>status = 206,
     headers = [(''Accept-Ranges'', HStr ''bytes''), (''Content-Type'', HStr ''video/mp4''),
       (''Content-Range'', HStr ''bytes 10-5/100''),
       (''Content-Length'', HNum (Num (- 4)))],
     body = ReadRange (Num 10) (Num 5)\<rparr>
   \<and> \<not> served_valid 100 (handler \<lparr>file_name = ''movie.mkv'', file_length = 100\<rparr>
      \<lparr>req_method = ''GET'', headers_range = Some ''bytes=10-5''\<rparr>)
   \<and> body (handler \<lparr>file_name = ''movie.mkv'', file_length = 100\<rparr>
      \<lparr>req_method = ''GET'', headers_range = Some ''bytes=0-999''\<rparr>) =
      ReadRange (Num 0) (Num 999)
   \<and> \<not> served_valid 100 (handler \<lparr>file_name = ''movie.mkv'', file_length = 100\<rparr>
      \<lparr>req_method = ''GET'', headers_range = Some ''bytes=0-999''\<rparr>)"
proof -
  let ?v = "\<lparr>file_name = ''movie.mkv'', file_length = 100\<rparr>"
  have d: "dec_int 10 = ''10''" "dec_int 5 = ''5''" "dec_int 100 = ''100''"
    "dec_int 0 = ''0''" "dec_int 999 = ''999''"
    by (simp_all add: dec_int_def dec_nat.simps digit_char_values)
  have h: "range_header 10 (Some 5) = ''bytes=10-5''" "range_header 0 (Some 999) = ''bytes=0-999''"
    by (simp_all add: range_header_def d)
  have sf: "safe 10" "safe 5" "safe 0" "safe 999" "safe (file_length ?v)"
    by (simp_all add: safe_def)
  have one: "handler ?v \<lparr>req_method = ''GET'', headers_range = Some ''bytes=10-5''\<rparr> =
      \<lparr>status = 206,
       headers = [(''Accept-Ranges'', HStr ''bytes''), (''Content-Type'', HStr ''video/mp4''),
         (''Content-Range'', HStr ''bytes 10-5/100''),
         (''Content-Length'', HNum (Num (- 4)))],
       body = ReadRange (Num 10) (Num 5)\<rparr>"
    and nv1: "\<not> served_valid 100 (handler ?v \<lparr>req_method = ''GET'', headers_range = Some ''bytes=10-5''\<rparr>)"
    using requested_bounds_served_unchecked [of 10 5 ?v] sf
    by (simp_all add: h d served_valid_def)
  have two: "handler ?v \<lparr>req_method = ''GET'', headers_range = Some ''bytes=0-999''\<rparr> =
      \<lparr>status = 206,
       headers = [(''Accept-Ranges'', HStr ''bytes''), (''Content-Type'', HStr ''video/mp4''),
         (''Content-Range'', HStr ''bytes 0-999/100''),
         (''Content-Length'', HNum (Num 1000))],
       body = ReadRange (Num 0) (Num 999)\<rparr>"
    and nv2: "\<not> served_valid 100 (handler ?v \<lparr>req_method = ''GET'', headers_range = Some ''bytes=0-999''\<rparr>)"
    using requested_bounds_served_unchecked [of 0 999 ?v] sf
    by (simp_all add: h d served_valid_def)
  from one nv1 two nv2 show ?thesis by simp
qed

text \<open>
  C7. A GET request without a Range header is answered with status 200, Content-Length
  equal to the length of the video, and Accept-Ranges \<open>bytes\<close>.
\<close>

theorem no_range_200:
  "handler video \<lparr>req_method = ''GET'', headers_range = None\<rparr> =
    \<lparr>status = 200,
     headers = [(''Accept-Ranges'', HStr ''bytes''), (''Content-Type'', HStr ''video/mp4''),
       (''Content-Length'', HNum (Num (file_length video)))],
     body = ReadAll\<rparr>"
  by (simp add: handler_def full_response_def base_headers_def)

text \<open>The three facts read off the response for a file of 5,000,000 bytes.\<close>

theorem no_range_200_witness:
  "header (handler \<lparr>file_name = ''movie.mkv'', file_length = 5000000\<rparr>
      \<lparr>req_method = ''GET'', headers_range = None\<rparr>) ''Content-Length'' = Some (HNum (Num 5000000))
   \<and> header (handler \<lparr>file_name = ''movie.mkv'', file_length = 5000000\<rparr>
      \<lparr>req_method = ''GET'', headers_range = None\<rparr>) ''Accept-Ranges'' = Some (HStr ''bytes'')
   \<and> status (handler \<lparr>file_name = ''movie.mkv'', file_length = 5000000\<rparr>
      \<lparr>req_method = ''GET'', headers_range = None\<rparr>) = 200"
  using no_range_200 [of "\<lparr>file_name = ''movie.mkv'', file_length = 5000000\<rparr>"]
  by (simp add: header_def)

text \<open>
  C10. Every answer to a GET request, 200 or 206, has Content-Type \<open>video/mp4\<close>, whatever
  the name of the selected video is.
\<close>

theorem get_content_type_fixed:
  assumes "req_method req = ''GET''"
  shows "header (handler video req) ''Content-Type'' = Some (HStr ''video/mp4'')
    \<and> (status (handler video req) = 200 \<or> status (handler video req) = 206)"
  using assms
  by (simp add: handler_def full_response_def range_response_def Let_def header_def
      base_headers_def split: option.splits)

text \<open>The selected video is an \<open>mkv\<close> file and the answer still says \<open>video/mp4\<close>.\<close>

theorem get_content_type_fixed_witness:
  "find_video [\<lparr>file_name = ''readme.txt'', file_length = 10\<rparr>,
               \<lparr>file_name = ''movie.mkv'', file_length = 5000000\<rparr>] =
     Some \<lparr>file_name = ''movie.mkv'', file_length = 5000000\<rparr>
   \<and> header (handler \<lparr>file_name = ''movie.mkv'', file_length = 5000000\<rparr>
        \<lparr>req_method = ''GET'', headers_range = Some ''bytes=0-''\<rparr>) ''Content-Type'' =
      Some (HStr ''video/mp4'')"
proof -
  have f: "find_video [\<lparr>file_name = ''readme.txt'', file_length = 10\<rparr>,
               \<lparr>file_name = ''movie.mkv'', file_length = 5000000\<rparr>] =
     Some \<lparr>file_name = ''movie.mkv'', file_length = 5000000\<rparr>"
    by (simp add: find_video_def is_video_def extensions_def lower_def suffix_def)
  show ?thesis
    using get_content_type_fixed [of "\<lparr>req_method = ''GET'', headers_range = Some ''bytes=0-''\<rparr>"
        "\<lparr>file_name = ''movie.mkv'', file_length = 5000000\<rparr>"] f
    by simp
qed

section \<open>Facts about the event loop\<close>

lemma emit_fields [simp]:
  "trace (emit e s) = trace s @ [e]" "exited (emit e s) = exited s" "tasks (emit e s) = tasks s"
  "scratch (emit e s) = scratch s" "server (emit e s) = server s" "client (emit e s) = client s"
  "torrent (emit e s) = torrent s" "playerProc (emit e s) = playerProc s"
  "listening (emit e s) = listening s" "streamErrorLogged (emit e s) = streamErrorLogged s"
  "progressInterval (emit e s) = progressInterval s" "pollInterval (emit e s) = pollInterval s"
  "destroyed (emit e s) = destroyed s"
  by (simp_all add: emit_def)

lemma emit_rms_fields [simp]:
  "trace (foldl (\<lambda>s' e. emit (Rm e) s') s es) = trace s @ map Rm es"
  "exited (foldl (\<lambda>s' e. emit (Rm e) s') s es) = exited s"
  "tasks (foldl (\<lambda>s' e. emit (Rm e) s') s es) = tasks s"
  "scratch (foldl (\<lambda>s' e. emit (Rm e) s') s es) = scratch s"
  "server (foldl (\<lambda>s' e. emit (Rm e) s') s es) = server s"
  "client (foldl (\<lambda>s' e. emit (Rm e) s') s es) = client s"
  "torrent (foldl (\<lambda>s' e. emit (Rm e) s') s es) = torrent s"
  "playerProc (foldl (\<lambda>s' e. emit (Rm e) s') s es) = playerProc s"
  "listening (foldl (\<lambda>s' e. emit (Rm e) s') s es) = listening s"
  "streamErrorLogged (foldl (\<lambda>s' e. emit (Rm e) s') s es) = streamErrorLogged s"
  "progressInterval (foldl (\<lambda>s' e. emit (Rm e) s') s es) = progressInterval s"
  "destroyed (foldl (\<lambda>s' e. emit (Rm e) s') s es) = destroyed s"
  by (induction es arbitrary: s) simp_all

lemma count_map_Rm [simp]:
  "count_list (map Rm es) (Print l) = 0" "count_list (map Rm es) ClearInterval_progress = 0"
  "count_list (map Rm es) Server_close = 0" "count_list (map Rm es) Client_destroy = 0"
  by (induction es) simp_all

lemmas shutdown_defs =
  shutdown_def shutdown_start_def clear_timers_def shutdown_server_def shutdown_client_def
  shutdown_cleanup_def unhandled_rejection_def

lemmas resume_defs =
  settle_def shutdown_resume_def shutdown_rm_rejected_def process_exit_def remove_entries_def
  shutdown_client_def shutdown_cleanup_def unhandled_rejection_def

lemmas callback_defs =
  startup_def ontorrent_def onlistening_def launchPlayer_def logStreamError_def

lemmas run_eval =
  step_def init_def shutdown_def shutdown_start_def clear_timers_def shutdown_server_def
  resume_defs callback_defs emit_def Let_def
  find_video_def is_video_def extensions_def lower_def suffix_def
  playing_def movie_mkv_def readme_txt_def

text \<open>What a call of \<open>shutdown\<close> does before it is suspended, step by step.\<close>

lemma shutdown_trace:
  "trace (shutdown code s) =
     trace s @ [Print Shutting_down]
       @ (if progressInterval s \<noteq> Undefined then [ClearInterval_progress] else [])
       @ (if pollInterval s \<noteq> Undefined then [ClearInterval_poll] else [])
       @ (if server s \<noteq> None then [Server_close]
          else if client s then (if destroyed s then [Unhandled_rejection] else [Client_destroy])
          else [Readdir])"
  by (simp add: shutdown_defs Let_def)

lemma shutdown_frame [simp]:
  "scratch (shutdown code s) = scratch s"
  "server (shutdown code s) = server s" "client (shutdown code s) = client s"
  "torrent (shutdown code s) = torrent s" "playerProc (shutdown code s) = playerProc s"
  "listening (shutdown code s) = listening s"
  "streamErrorLogged (shutdown code s) = streamErrorLogged s"
  by (simp_all add: shutdown_defs Let_def)

lemma shutdown_exited:
  "exited (shutdown code s) =
     (if server s = None \<and> client s \<and> destroyed s then Some 1 else exited s)"
  by (auto simp: shutdown_defs Let_def)

lemma shutdown_destroyed:
  "destroyed (shutdown code s) = (destroyed s \<or> (server s = None \<and> client s))"
  by (auto simp: shutdown_defs Let_def)

lemma shutdown_tasks:
  "tasks (shutdown code s) =
     (if server s = None \<and> client s \<and> destroyed s then tasks s
      else tasks s @ [\<lparr>awaiting = (if server s \<noteq> None then Await_close
                                     else if client s then Await_grace else Await_readdir),
                        exitCode = code\<rparr>])"
  by (simp add: shutdown_defs Let_def)

lemma settle_counts:
  "count_list (trace (settle i shutdown_resume s)) (Print Shutting_down) =
   count_list (trace s) (Print Shutting_down)"
  "count_list (trace (settle i (\<lambda>p code. shutdown_rm_rejected p code gone) s)) (Print Shutting_down) =
   count_list (trace s) (Print Shutting_down)"
  "count_list (trace (settle i shutdown_resume s)) ClearInterval_progress =
   count_list (trace s) ClearInterval_progress"
  "count_list (trace (settle i (\<lambda>p code. shutdown_rm_rejected p code gone) s)) ClearInterval_progress =
   count_list (trace s) ClearInterval_progress"
  "count_list (trace (settle i shutdown_resume s)) Server_close =
   count_list (trace s) Server_close"
  "count_list (trace (settle i (\<lambda>p code. shutdown_rm_rejected p code gone) s)) Server_close =
   count_list (trace s) Server_close"
  by (simp_all add: resume_defs Let_def split: pc.splits dir.splits)

lemma ontorrent_counts:
  "count_list (trace (ontorrent files s)) (Print Shutting_down) =
   count_list (trace s) (Print Shutting_down) + (if find_video files = None then 1 else 0)"
  "count_list (trace (ontorrent files s)) ClearInterval_progress =
   count_list (trace s) ClearInterval_progress +
     (if find_video files = None \<and> progressInterval s \<noteq> Undefined then 1 else 0)"
  "count_list (trace (ontorrent files s)) Server_close =
   count_list (trace s) Server_close +
     (if find_video files = None \<and> server s \<noteq> None then 1 else 0)"
  by (cases "find_video files"; simp add: ontorrent_def Let_def shutdown_trace)+

lemma step_entries:
  "count_list (trace (step e s)) (Print Shutting_down) =
   count_list (trace s) (Print Shutting_down) + (if exited s = None \<and> fires e s then 1 else 0)"
  by (cases e)
    (simp_all add: step_def shutdown_trace settle_counts ontorrent_counts startup_def
      onlistening_def launchPlayer_def logStreamError_def Let_def split: option.splits)

lemma step_timer_clears:
  "count_list (trace (step e s)) ClearInterval_progress =
   count_list (trace s) ClearInterval_progress +
     (if exited s = None \<and> fires e s \<and> timer_set s then 1 else 0)"
  by (cases e)
    (simp_all add: step_def shutdown_trace settle_counts ontorrent_counts startup_def
      onlistening_def launchPlayer_def logStreamError_def timer_set_def Let_def
      split: option.splits)

lemma step_server_closes:
  "count_list (trace (step e s)) Server_close =
   count_list (trace s) Server_close +
     (if exited s = None \<and> fires e s \<and> server_set s then 1 else 0)"
  by (cases e)
    (simp_all add: step_def shutdown_trace settle_counts ontorrent_counts startup_def
      onlistening_def launchPlayer_def logStreamError_def server_set_def Let_def
      split: option.splits)

lemma run_entries:
  "count_list (trace (run es s)) (Print Shutting_down) =
   count_list (trace s) (Print Shutting_down) + fired es s"
  by (induction es arbitrary: s) (simp_all add: step_entries)

lemma run_timer_clears:
  "count_list (trace (run es s)) ClearInterval_progress =
   count_list (trace s) ClearInterval_progress + fired_in timer_set es s"
  by (induction es arbitrary: s) (simp_all add: step_timer_clears)

lemma run_server_closes:
  "count_list (trace (run es s)) Server_close =
   count_list (trace s) Server_close + fired_in server_set es s"
  by (induction es arbitrary: s) (simp_all add: step_server_closes)

text \<open>The client is destroyed at most once.\<close>

lemma shutdown_destroyed_once:
  "destroyed_once s \<Longrightarrow> destroyed_once (shutdown code s)"
  by (auto simp: destroyed_once_def shutdown_trace shutdown_destroyed)

lemma settle_destroyed_once:
  assumes "destroyed_once s"
  shows "destroyed_once (settle i shutdown_resume s)"
    and "destroyed_once (settle i (\<lambda>p code. shutdown_rm_rejected p code gone) s)"
  using assms
  by (simp_all add: destroyed_once_def resume_defs Let_def split: pc.splits dir.splits)

lemma destroyed_once_cong:
  assumes "count_list (trace s') Client_destroy = count_list (trace s) Client_destroy"
    and "destroyed s' = destroyed s"
  shows "destroyed_once s' = destroyed_once s"
  using assms by (simp add: destroyed_once_def)

lemma ontorrent_destroyed_once:
  assumes "destroyed_once s"
  shows "destroyed_once (ontorrent files s)"
proof (cases "find_video files")
  case None
  let ?s1 = "emit (Print No_video_file) (emit (Print Torrent_name) (s\<lparr>torrent := True\<rparr>))"
  have "destroyed_once ?s1 = destroyed_once s"
    by (rule destroyed_once_cong) simp_all
  with assms have d: "destroyed_once (shutdown 1 ?s1)"
    by (simp add: shutdown_destroyed_once)
  have "destroyed_once ((emit Uncaught_exception (shutdown 1 ?s1))\<lparr>exited := Some 1\<rparr>) =
      destroyed_once (shutdown 1 ?s1)"
    by (rule destroyed_once_cong) simp_all
  with d None show ?thesis by (simp add: ontorrent_def Let_def)
next
  case (Some video)
  have "destroyed_once (ontorrent files s) = destroyed_once s"
    using Some by (intro destroyed_once_cong) (simp_all add: ontorrent_def Let_def)
  with assms show ?thesis by simp
qed

lemma step_destroyed_once:
  assumes "destroyed_once s"
  shows "destroyed_once (step e s)"
proof (cases e)
  case (Torrent_ready files)
  with assms ontorrent_destroyed_once [OF assms, of files] show ?thesis
    by (simp add: step_def)
next
  case (Client_error message)
  have "destroyed_once (emit (Print (Client_error_line message)) s) = destroyed_once s"
    by (rule destroyed_once_cong) simp_all
  with assms Client_error show ?thesis
    by (simp add: step_def shutdown_destroyed_once)
next
  case (Player_exit code)
  have "destroyed_once (emit (Print (VLC_exited code)) s) = destroyed_once s"
    by (rule destroyed_once_cong) simp_all
  with assms Player_exit show ?thesis
    by (simp add: step_def shutdown_destroyed_once)
next
  case Sigint
  have "destroyed_once (emit (Print SIGINT_received) s) = destroyed_once s"
    by (rule destroyed_once_cong) simp_all
  with assms Sigint show ?thesis
    by (simp add: step_def shutdown_destroyed_once)
next
  case (Resume i)
  with assms settle_destroyed_once(1) [OF assms, of i] show ?thesis by (simp add: step_def)
next
  case (Rm_rejected i gone)
  with assms settle_destroyed_once(2) [OF assms, of i gone] show ?thesis by (simp add: step_def)
qed (use assms in \<open>simp_all add: step_def destroyed_once_def startup_def onlistening_def
       launchPlayer_def logStreamError_def Let_def split: option.splits\<close>)

lemma run_destroyed_once: "destroyed_once s \<Longrightarrow> destroyed_once (run es s)"
  by (induction es arbitrary: s) (simp_all add: step_destroyed_once)

text \<open>The process ends at most once.\<close>

lemma shutdown_terminations:
  assumes "length (filter is_termination (trace s)) = (if exited s = None then 0 else 1)"
    and "exited s = None"
  shows "length (filter is_termination (trace (shutdown code s))) =
           (if exited (shutdown code s) = None then 0 else 1)"
  using assms by (simp add: shutdown_trace shutdown_exited)

lemma settle_terminations:
  assumes "length (filter is_termination (trace s)) = (if exited s = None then 0 else 1)"
    and "exited s = None"
  shows "length (filter is_termination (trace (settle i shutdown_resume s))) =
           (if exited (settle i shutdown_resume s) = None then 0 else 1)"
    and "length (filter is_termination (trace (settle i (\<lambda>p code. shutdown_rm_rejected p code gone) s))) =
           (if exited (settle i (\<lambda>p code. shutdown_rm_rejected p code gone) s) = None then 0 else 1)"
  using assms by (simp_all add: resume_defs Let_def split: pc.splits dir.splits)

lemma ontorrent_terminations:
  assumes "length (filter is_termination (trace s)) = (if exited s = None then 0 else 1)"
    and "exited s = None"
  shows "length (filter is_termination (trace (ontorrent files s))) =
           (if exited (ontorrent files s) = None then 0 else 1)"
  using assms
  by (cases "find_video files")
    (simp_all add: ontorrent_def Let_def shutdown_trace shutdown_exited)

lemma step_terminations:
  assumes "length (filter is_termination (trace s)) = (if exited s = None then 0 else 1)"
  shows "length (filter is_termination (trace (step e s))) =
           (if exited (step e s) = None then 0 else 1)"
proof (cases "exited s = None")
  case False
  with assms show ?thesis by (simp add: step_def)
next
  case True
  show ?thesis
  proof (cases e)
    case (Torrent_ready files)
    with True assms ontorrent_terminations [OF assms True, of files] show ?thesis
      by (simp only: step_def dispatch.simps simp_thms if_True if_False split: if_splits)
  next
    case (Resume i)
    with True settle_terminations(1) [OF assms True, of i] show ?thesis
      by (simp only: step_def dispatch.simps simp_thms if_False)
  next
    case (Rm_rejected i gone)
    with True settle_terminations(2) [OF assms True, of i gone] show ?thesis
      by (simp only: step_def dispatch.simps simp_thms if_False)
  qed (use True assms in \<open>simp_all add: step_def shutdown_trace shutdown_exited startup_def
         onlistening_def launchPlayer_def logStreamError_def Let_def split: option.splits\<close>)
qed

lemma run_terminations:
  assumes "length (filter is_termination (trace s)) = (if exited s = None then 0 else 1)"
  shows "length (filter is_termination (trace (run es s))) =
           (if exited (run es s) = None then 0 else 1)"
  using assms by (induction es arbitrary: s) (simp_all add: step_terminations)

lemma step_exited: "exited s \<noteq> None \<Longrightarrow> step e s = s"
  by (simp add: step_def)

lemma run_exited: "exited s \<noteq> None \<Longrightarrow> run es s = s"
  by (induction es) (simp_all add: step_def)

lemma run_append: "run (es @ es') s = run es' (run es s)"
  by (induction es arbitrary: s) simp_all

text \<open>A run that reaches \<open>client.destroy\<close> on a destroyed client ends the process.\<close>

lemma trigger_on_destroyed:
  assumes "exited s = None" and "fires e s" and "client s" and "destroyed s" and "server s = None"
  shows "exited (step e s) = Some 1" and "scratch (step e s) = scratch s"
    and "tasks (step e s) = tasks s"
  using assms
  by (cases e; simp add: step_def shutdown_exited shutdown_tasks ontorrent_def Let_def)+

lemma resume_on_destroyed:
  assumes "exited s = None" and "i < length (tasks s)" and "awaiting (tasks s ! i) = Await_close"
    and "client s" and "destroyed s"
  shows "exited (step (Resume i) s) = Some 1" and "scratch (step (Resume i) s) = scratch s"
  using assms by (simp_all add: step_def resume_defs Let_def)

section \<open>Shutdown runs\<close>

text \<open>
  C1, as the code behaves. \<open>shutdown\<close> has no guard: it is entered once for every trigger
  (client error, missing video member, player exit, SIGINT) delivered while the process is
  alive, and every entry repeats the first teardown steps: it cancels the progress timer
  again if one was set and calls \<open>server.close\<close> again if a server exists. The client is
  destroyed at most once: an entry that comes to \<open>client.destroy\<close> after another has
  destroyed the client fails there, and the process ends with status 1 with the scratch
  directory left as it is. Only the end of the process is once-only: the process
  terminates at most once, and after that no event has any effect.
\<close>

theorem shutdown_entered_per_trigger:
  "count_list (trace (run es (init d))) (Print Shutting_down) = fired es (init d)
   \<and> count_list (trace (run es (init d))) ClearInterval_progress = fired_in timer_set es (init d)
   \<and> count_list (trace (run es (init d))) Server_close = fired_in server_set es (init d)
   \<and> count_list (trace (run es (init d))) Client_destroy \<le> 1
   \<and> (exited s1 = None \<and> fires e s1 \<and> client s1 \<and> destroyed s1 \<and> server s1 = None \<longrightarrow>
        exited (step e s1) = Some 1 \<and> scratch (step e s1) = scratch s1)
   \<and> (exited s2 = None \<and> i < length (tasks s2) \<and> awaiting (tasks s2 ! i) = Await_close \<and>
        client s2 \<and> destroyed s2 \<longrightarrow>
        exited (step (Resume i) s2) = Some 1 \<and> scratch (step (Resume i) s2) = scratch s2)
   \<and> length (filter is_termination (trace (run es (init d)))) \<le> 1
   \<and> (exited (run es (init d)) \<noteq> None \<longrightarrow> run (es @ es') (init d) = run es (init d))"
proof -
  have a: "count_list (trace (run es (init d))) (Print Shutting_down) = fired es (init d)"
    using run_entries [of es "init d"] by (simp add: init_def)
  have b: "count_list (trace (run es (init d))) ClearInterval_progress =
      fired_in timer_set es (init d)"
    using run_timer_clears [of es "init d"] by (simp add: init_def)
  have c: "count_list (trace (run es (init d))) Server_close = fired_in server_set es (init d)"
    using run_server_closes [of es "init d"] by (simp add: init_def)
  have "destroyed_once (init d)"
    by (simp add: destroyed_once_def init_def)
  then have "destroyed_once (run es (init d))"
    by (rule run_destroyed_once)
  then have d: "count_list (trace (run es (init d))) Client_destroy \<le> 1"
    by (simp add: destroyed_once_def)
  have e: "exited s1 = None \<and> fires e s1 \<and> client s1 \<and> destroyed s1 \<and> server s1 = None \<longrightarrow>
        exited (step e s1) = Some 1 \<and> scratch (step e s1) = scratch s1"
    using trigger_on_destroyed(1,2) [of s1 e] by blast
  have f: "exited s2 = None \<and> i < length (tasks s2) \<and> awaiting (tasks s2 ! i) = Await_close \<and>
        client s2 \<and> destroyed s2 \<longrightarrow>
        exited (step (Resume i) s2) = Some 1 \<and> scratch (step (Resume i) s2) = scratch s2"
    using resume_on_destroyed [of s2 i] by blast
  have g: "length (filter is_termination (trace (run es (init d)))) \<le> 1"
    using run_terminations [of "init d" es] by (simp add: init_def)
  have h: "exited (run es (init d)) \<noteq> None \<longrightarrow> run (es @ es') (init d) = run es (init d)"
    by (simp add: run_append run_exited)
  from a b c d e f g h show ?thesis by blast
qed

text \<open>
  The player exits and SIGINT arrives while the first \<open>shutdown\<close> waits for the socket to
  close. Both entries cancel the timer and close the socket; the first destroys the client,
  the second fails at \<open>client.destroy\<close> and the process ends with status 1. A SIGINT after
  that changes nothing. The same failure on entry: two SIGINTs before the metadata.
\<close>

theorem shutdown_entered_per_trigger_witness:
  "count_list (trace (run (playing @ [Player_exit (Some 0), Sigint, Resume 0, Resume 1])
      (init (Dir [])))) (Print Shutting_down) = 2
   \<and> count_list (trace (run (playing @ [Player_exit (Some 0), Sigint, Resume 0, Resume 1])
      (init (Dir [])))) ClearInterval_progress = 2
   \<and> count_list (trace (run (playing @ [Player_exit (Some 0), Sigint, Resume 0, Resume 1])
      (init (Dir [])))) Server_close = 2
   \<and> exited (step (Resume 1) (run (playing @ [Player_exit (Some 0), Sigint, Resume 0])
      (init (Dir [])))) = Some 1
   \<and> exited (step Sigint (run [Mkdir_done True, Sigint] (init (Dir [])))) = Some 1
   \<and> run ((playing @ [Player_exit (Some 0), Sigint, Resume 0, Resume 1]) @ [Sigint])
      (init (Dir [])) =
     run (playing @ [Player_exit (Some 0), Sigint, Resume 0, Resume 1]) (init (Dir []))"
proof -
  let ?es = "playing @ [Player_exit (Some 0), Sigint, Resume 0, Resume 1]"
  let ?s2 = "run (playing @ [Player_exit (Some 0), Sigint, Resume 0]) (init (Dir []))"
  let ?s1 = "run [Mkdir_done True, Sigint] (init (Dir []))"
  have n: "fired ?es (init (Dir [])) = 2" "fired_in timer_set ?es (init (Dir [])) = 2"
    "fired_in server_set ?es (init (Dir [])) = 2"
    by (simp_all add: run_eval timer_set_def server_set_def)
  have x: "exited (run ?es (init (Dir []))) = Some 1"
    by (simp add: run_eval)
  have h1: "exited ?s1 = None" "fires Sigint ?s1" "client ?s1" "destroyed ?s1" "server ?s1 = None"
    by (simp_all add: run_eval)
  have h2: "exited ?s2 = None" "1 < length (tasks ?s2)" "awaiting (tasks ?s2 ! 1) = Await_close"
    "client ?s2" "destroyed ?s2"
    by (simp_all add: run_eval)
  note th = shutdown_entered_per_trigger [of ?es "Dir []" ?s1 Sigint ?s2 1 "[Sigint]"]
  from th n have a: "count_list (trace (run ?es (init (Dir [])))) (Print Shutting_down) = 2"
    and b: "count_list (trace (run ?es (init (Dir [])))) ClearInterval_progress = 2"
    and c: "count_list (trace (run ?es (init (Dir [])))) Server_close = 2"
    by (simp_all only:)
  from th h1 have e: "exited (step Sigint ?s1) = Some 1" by blast
  from th h2 have f: "exited (step (Resume 1) ?s2) = Some 1" by blast
  from x have "exited (run ?es (init (Dir []))) \<noteq> None" by simp
  with th have g: "run (?es @ [Sigint]) (init (Dir [])) = run ?es (init (Dir []))" by blast
  from a b c e f g show ?thesis by blast
qed

text \<open>
  The player exits and SIGINT arrives while the first \<open>shutdown\<close> waits for the socket to
  close: the sequence is entered twice, the timer is cancelled twice and the socket is
  closed twice, and the process ends with status 1 instead of the 0 both triggers asked
  for.
\<close>

theorem two_triggers_two_shutdowns:
  "count_list (trace (run (playing @ [Player_exit (Some 0), Sigint, Resume 0, Resume 1])
      (init (Dir [])))) (Print Shutting_down) = 2
   \<and> count_list (trace (run (playing @ [Player_exit (Some 0), Sigint, Resume 0, Resume 1])
      (init (Dir [])))) ClearInterval_progress = 2
   \<and> count_list (trace (run (playing @ [Player_exit (Some 0), Sigint, Resume 0, Resume 1])
      (init (Dir [])))) Server_close = 2
   \<and> exited (run (playing @ [Player_exit (Some 0), Sigint, Resume 0, Resume 1])
      (init (Dir []))) = Some 1"
  by (simp add: run_eval)

section \<open>Exit codes\<close>

text \<open>A single \<open>shutdown\<close>, left alone, runs to \<open>process.exit\<close> in at most four steps.\<close>

lemma resume_at_rm:
  assumes "exited s = None" and "tasks s = [\<lparr>awaiting = Await_rm xs, exitCode = c\<rparr>]"
  shows "exited (run (Resume 0 # es) s) = Some c"
proof -
  have "exited (step (Resume 0) s) = Some c"
    using assms by (simp add: step_def resume_defs)
  then show ?thesis by (simp add: run_exited)
qed

lemma resume_at_readdir:
  assumes "exited s = None" and "tasks s = [\<lparr>awaiting = Await_readdir, exitCode = c\<rparr>]"
  shows "exited (run (Resume 0 # Resume 0 # es) s) = Some c"
proof (cases "\<exists>xs. scratch s = Dir xs \<and> xs \<noteq> []")
  case True
  then obtain xs where xs: "scratch s = Dir xs" "xs \<noteq> []" by blast
  with assms have "exited (step (Resume 0) s) = None"
    and "tasks (step (Resume 0) s) = [\<lparr>awaiting = Await_rm xs, exitCode = c\<rparr>]"
    by (simp_all add: step_def resume_defs)
  then show ?thesis using resume_at_rm [of "step (Resume 0) s" xs c es] by simp
next
  case False
  with assms have "exited (step (Resume 0) s) = Some c"
    by (cases "scratch s") (simp_all add: step_def resume_defs)
  then show ?thesis by (simp add: run_exited step_exited)
qed

lemma resume_at_grace:
  assumes "exited s = None" and "tasks s = [\<lparr>awaiting = Await_grace, exitCode = c\<rparr>]"
  shows "exited (run (Resume 0 # Resume 0 # Resume 0 # es) s) = Some c"
proof -
  from assms have "exited (step (Resume 0) s) = None"
    and "tasks (step (Resume 0) s) = [\<lparr>awaiting = Await_readdir, exitCode = c\<rparr>]"
    by (simp_all add: step_def resume_defs)
  then show ?thesis using resume_at_readdir [of "step (Resume 0) s" c es] by simp
qed

lemma resume_at_close:
  assumes "exited s = None" and "tasks s = [\<lparr>awaiting = Await_close, exitCode = c\<rparr>]"
    and "\<not> destroyed s"
  shows "exited (run [Resume 0, Resume 0, Resume 0, Resume 0] s) = Some c"
proof (cases "client s")
  case True
  with assms have "exited (step (Resume 0) s) = None"
    and "tasks (step (Resume 0) s) = [\<lparr>awaiting = Await_grace, exitCode = c\<rparr>]"
    by (simp_all add: step_def resume_defs)
  then show ?thesis using resume_at_grace [of "step (Resume 0) s" c "[]"] by simp
next
  case False
  with assms have "exited (step (Resume 0) s) = None"
    and "tasks (step (Resume 0) s) = [\<lparr>awaiting = Await_readdir, exitCode = c\<rparr>]"
    by (simp_all add: step_def resume_defs)
  then show ?thesis using resume_at_readdir [of "step (Resume 0) s" c "[Resume 0]"] by simp
qed

lemma shutdown_completes:
  assumes "exited s = None" and "tasks s = []" and "\<not> destroyed s"
  shows "exited (run [Resume 0, Resume 0, Resume 0, Resume 0] (shutdown code s)) = Some code"
proof -
  let ?s = "shutdown code s"
  have x: "exited ?s = None" using assms(1,3) by (simp add: shutdown_exited)
  have t: "tasks ?s = [\<lparr>awaiting = (if server s \<noteq> None then Await_close
        else if client s then Await_grace else Await_readdir), exitCode = code\<rparr>]"
    using assms(2,3) by (simp add: shutdown_tasks)
  consider "server s \<noteq> None" | "server s = None" "client s" | "server s = None" "\<not> client s"
    by blast
  then show ?thesis
  proof cases
    case 1
    with t have "tasks ?s = [\<lparr>awaiting = Await_close, exitCode = code\<rparr>]" by simp
    moreover from 1 assms(3) have "\<not> destroyed ?s" by (simp add: shutdown_destroyed)
    ultimately show ?thesis using x by (intro resume_at_close)
  next
    case 2
    with t have "tasks ?s = [\<lparr>awaiting = Await_grace, exitCode = code\<rparr>]" by simp
    then show ?thesis using x by (rule resume_at_grace [rotated])
  next
    case 3
    with t have "tasks ?s = [\<lparr>awaiting = Await_readdir, exitCode = code\<rparr>]" by simp
    then show ?thesis using x by (rule resume_at_readdir [rotated])
  qed
qed

text \<open>
  While a single \<open>shutdown\<close> with code 0 is under way and no trigger fires, the process can
  only end through its \<open>process.exit(0)\<close>.
\<close>

lemma lone_zero_cong:
  assumes "tasks s' = tasks s" and "destroyed s' = destroyed s" and "exited s' = exited s"
  shows "lone_zero s' = lone_zero s"
  using assms by (simp add: lone_zero_def)

lemma settle_lone_zero:
  assumes "lone_zero s"
  shows "lone_zero (settle i shutdown_resume s)"
    and "lone_zero (settle i (\<lambda>p code. shutdown_rm_rejected p code gone) s)"
proof -
  have both: "lone_zero (settle i shutdown_resume s) \<and>
      lone_zero (settle i (\<lambda>p code. shutdown_rm_rejected p code gone) s)"
  proof (cases "tasks s")
    case Nil
    with assms show ?thesis by (simp add: settle_def)
  next
    case (Cons t ts)
    with assms have ts: "ts = []" and t0: "exitCode t = 0"
      and cl: "destroyed s \<longrightarrow> awaiting t \<noteq> Await_close"
      and ex: "exited s = None \<or> exited s = Some 0"
      by (simp_all add: lone_zero_def)
    show ?thesis
    proof (cases i)
      case (Suc j)
      with Cons ts assms show ?thesis by (simp add: settle_def)
    next
      case 0
      with Cons ts t0 cl ex show ?thesis
        by (cases "awaiting t"; cases "scratch s")
          (auto simp: lone_zero_def resume_defs Let_def)
    qed
  qed
  from both show "lone_zero (settle i shutdown_resume s)"
    and "lone_zero (settle i (\<lambda>p code. shutdown_rm_rejected p code gone) s)"
    by simp_all
qed

lemma step_lone_zero:
  assumes "lone_zero s" and "trigger_code e = None"
  shows "lone_zero (step e s)"
proof (cases "exited s = None")
  case False
  with assms show ?thesis by (simp add: step_def)
next
  case True
  show ?thesis
  proof (cases e)
    case (Torrent_ready files)
    with assms(2) obtain video where v: "find_video files = Some video"
      by (cases "find_video files") simp_all
    have "lone_zero (ontorrent files s) = lone_zero s"
      using v by (intro lone_zero_cong) (simp_all add: ontorrent_def Let_def)
    with Torrent_ready assms(1) show ?thesis by (simp add: step_def)
  next
    case (Resume i)
    with True settle_lone_zero(1) [OF assms(1), of i] show ?thesis by (simp add: step_def)
  next
    case (Rm_rejected i gone)
    with True settle_lone_zero(2) [OF assms(1), of i gone] show ?thesis by (simp add: step_def)
  qed (use True assms in \<open>simp_all add: step_def lone_zero_def startup_def onlistening_def
         launchPlayer_def logStreamError_def Let_def split: option.splits\<close>)
qed

lemma run_lone_zero:
  assumes "lone_zero s" and "\<forall>e \<in> set es. trigger_code e = None"
  shows "lone_zero (run es s)"
  using assms by (induction es arbitrary: s) (simp_all add: step_lone_zero)

text \<open>
  The player exits with code 3: the code is printed, and the process exits with status 0.
\<close>

theorem player_exit_code_dropped:
  "exited (run (playing @ [Player_exit (Some 3), Resume 0, Resume 0, Resume 0, Resume 0])
      (init (Dir [''movie.mkv'']))) = Some 0
   \<and> exited (run (playing @ [Player_exit (Some 3), Resume 0, Resume 0, Resume 0, Resume 0])
      (init (Dir [''movie.mkv'']))) \<noteq> Some 3
   \<and> Print (VLC_exited (Some 3)) \<in> set (trace (run
      (playing @ [Player_exit (Some 3), Resume 0, Resume 0, Resume 0, Resume 0])
      (init (Dir [''movie.mkv'']))))"
  by (simp add: run_eval)

text \<open>
  C2, as the code behaves. When the player process exits with code \<open>C\<close>, the handler calls
  \<open>shutdown(0)\<close> whatever \<open>C\<close> is: the shutdown it starts carries exit code 0 and reaches
  \<open>process.exit(0)\<close> once its awaited promises settle; with no other trigger firing, the
  process can only end with status 0.
\<close>

theorem player_exit_status_zero:
  assumes "exited s = None" and "playerProc s" and "tasks s = []" and "\<not> destroyed s"
    and "\<forall>e \<in> set es. trigger_code e = None"
  shows "map exitCode (tasks (step (Player_exit c) s)) = [0]
    \<and> exited (run [Player_exit c, Resume 0, Resume 0, Resume 0, Resume 0] s) = Some 0
    \<and> (exited (run (Player_exit c # es) s) = None \<or>
        exited (run (Player_exit c # es) s) = Some 0)"
proof -
  let ?s = "emit (Print (VLC_exited c)) s"
  have st: "step (Player_exit c) s = shutdown 0 ?s"
    using assms(1,2) by (simp add: step_def)
  have t: "tasks ?s = []" and x: "exited ?s = None" and nd: "\<not> destroyed ?s"
    using assms(1,3,4) by simp_all
  have a: "map exitCode (tasks (step (Player_exit c) s)) = [0]"
    unfolding st using t nd by (simp add: shutdown_tasks)
  have b: "exited (run [Player_exit c, Resume 0, Resume 0, Resume 0, Resume 0] s) = Some 0"
    using shutdown_completes [OF x t nd, of 0] by (simp add: st)
  have "lone_zero (shutdown 0 ?s)"
    using t x nd by (simp add: lone_zero_def shutdown_tasks shutdown_exited shutdown_destroyed)
  then have "lone_zero (run es (shutdown 0 ?s))"
    using assms(5) by (rule run_lone_zero)
  then have "exited (run (Player_exit c # es) s) = None \<or>
      exited (run (Player_exit c # es) s) = Some 0"
    by (simp add: st lone_zero_def)
  with a b show ?thesis by blast
qed

text \<open>
  The player exits with code 3 while the video is playing; requests and stream errors
  may still arrive, and no other trigger fires.
\<close>

theorem player_exit_status_zero_witness:
  "map exitCode (tasks (step (Player_exit (Some 3)) (run playing (init (Dir [''movie.mkv''])))))
     = [0]
   \<and> exited (run [Player_exit (Some 3), Resume 0, Resume 0, Resume 0, Resume 0]
        (run playing (init (Dir [''movie.mkv''])))) = Some 0
   \<and> exited (run [Player_exit (Some 3), Resume 0, Stream_error ''closed prematurely'',
        Resume 0, Resume 0, Resume 0] (run playing (init (Dir [''movie.mkv''])))) = Some 0"
proof -
  let ?s = "run playing (init (Dir [''movie.mkv'']))"
  let ?es = "[Resume 0, Stream_error ''closed prematurely'', Resume 0, Resume 0, Resume 0]"
  have h: "exited ?s = None" "playerProc ?s" "tasks ?s = []" "\<not> destroyed ?s"
    by (simp_all add: run_eval)
  have e: "\<forall>e \<in> set ?es. trigger_code e = None"
    by simp
  have x: "exited (run (Player_exit (Some 3) # ?es) ?s) \<noteq> None"
    by (simp add: run_eval)
  note th = player_exit_status_zero [OF h e, of "Some 3"]
  from th x have "exited (run (Player_exit (Some 3) # ?es) ?s) = Some 0" by blast
  with th show ?thesis by blast
qed

section \<open>A torrent without a video member\<close>

lemma list_ex_map_Rm [simp]: "\<not> list_ex is_respond (map Rm es)"
  by (induction es) simp_all

lemma settle_unjoined:
  assumes "unjoined s"
  shows "unjoined (settle i shutdown_resume s)"
    and "unjoined (settle i (\<lambda>p code. shutdown_rm_rejected p code gone) s)"
  using assms
  by (simp_all add: unjoined_def resume_defs Let_def split: pc.splits dir.splits)

lemma step_unjoined:
  assumes "unjoined s"
  shows "unjoined (step e s)"
proof (cases e)
  case (Torrent_ready files)
  have "torrent (ontorrent files s)"
    by (cases "find_video files") (simp_all add: ontorrent_def Let_def)
  with Torrent_ready assms show ?thesis by (simp add: step_def unjoined_def)
next
  case (Resume i)
  with assms settle_unjoined(1) [OF assms, of i] show ?thesis by (simp add: step_def)
next
  case (Rm_rejected i gone)
  with assms settle_unjoined(2) [OF assms, of i gone] show ?thesis by (simp add: step_def)
qed (use assms in \<open>auto simp add: step_def unjoined_def shutdown_trace startup_def
       onlistening_def launchPlayer_def logStreamError_def Let_def split: option.splits\<close>)

lemma run_unjoined: "unjoined s \<Longrightarrow> unjoined (run es s)"
  by (induction es arbitrary: s) (simp_all add: step_unjoined)

lemma ontorrent_no_video:
  assumes "find_video files = None" and "exited s = None"
  shows "exited (ontorrent files s) = Some 1" and "server (ontorrent files s) = server s"
    and "list_ex is_respond (trace (ontorrent files s)) = list_ex is_respond (trace s)"
    and "Print Shutting_down \<in> set (trace (ontorrent files s))"
    and "Print No_video_file \<in> set (trace (ontorrent files s))"
  using assms by (simp_all add: ontorrent_def Let_def shutdown_exited shutdown_trace)

text \<open>
  C9. When the torrent's callback runs on a list of members none of which has a name
  ending in one of the five extensions, it reports that, enters \<open>shutdown(1)\<close>, and the
  process ends with status 1 whatever happens next; no server has been or is ever
  created, so no request is ever answered.
\<close>

theorem no_video_is_fatal:
  assumes "find_video files = None"
    and "exited (run pre (init d)) = None" and "client (run pre (init d))"
    and "\<not> torrent (run pre (init d))"
  shows "exited (run (pre @ Torrent_ready files # es) (init d)) = Some 1
    \<and> server (run (pre @ Torrent_ready files # es) (init d)) = None
    \<and> \<not> list_ex is_respond (trace (run (pre @ Torrent_ready files # es) (init d)))
    \<and> Print No_video_file \<in> set (trace (run (pre @ Torrent_ready files # es) (init d)))
    \<and> Print Shutting_down \<in> set (trace (run (pre @ Torrent_ready files # es) (init d)))"
proof -
  let ?s = "run pre (init d)"
  let ?s' = "step (Torrent_ready files) ?s"
  have "unjoined (init d)"
    by (simp add: unjoined_def init_def)
  then have "unjoined ?s"
    by (rule run_unjoined)
  with assms(4) have s: "server ?s = None" "\<not> list_ex is_respond (trace ?s)"
    by (simp_all add: unjoined_def)
  have st: "?s' = ontorrent files ?s"
    using assms(2,3,4) by (simp add: step_def)
  note o = ontorrent_no_video [OF assms(1,2), of ]
  have x: "exited ?s' = Some 1"
    unfolding st by (rule o)
  then have r: "run (pre @ Torrent_ready files # es) (init d) = ?s'"
    by (simp add: run_append run_exited)
  show ?thesis
    unfolding r st using o s by simp
qed

text \<open>
  A torrent that holds only \<open>readme.txt\<close>; a request, a SIGINT and the end of the grace
  period of the shutdown follow.
\<close>

theorem no_video_is_fatal_witness:
  "find_video [readme_txt] = None
   \<and> exited (run ([Mkdir_done True] @ Torrent_ready [readme_txt] #
        [Request \<lparr>req_method = ''GET'', headers_range = None\<rparr>, Sigint, Resume 0])
        (init (Dir []))) = Some 1
   \<and> server (run ([Mkdir_done True] @ Torrent_ready [readme_txt] #
        [Request \<lparr>req_method = ''GET'', headers_range = None\<rparr>, Sigint, Resume 0])
        (init (Dir []))) = None
   \<and> \<not> list_ex is_respond (trace (run ([Mkdir_done True] @ Torrent_ready [readme_txt] #
        [Request \<lparr>req_method = ''GET'', headers_range = None\<rparr>, Sigint, Resume 0])
        (init (Dir []))))"
proof -
  have h: "find_video [readme_txt] = None"
    by (simp add: run_eval)
  have p: "exited (run [Mkdir_done True] (init (Dir []))) = None"
    "client (run [Mkdir_done True] (init (Dir [])))"
    "\<not> torrent (run [Mkdir_done True] (init (Dir [])))"
    by (simp_all add: run_eval)
  show ?thesis
    using no_video_is_fatal [OF h p,
        of "[Request \<lparr>req_method = ''GET'', headers_range = None\<rparr>, Sigint, Resume 0]"] h
    by blast
qed

section \<open>The scratch directory\<close>

lemma listed_shutdown:
  "listed (shutdown code s) = listed s"
  by (simp add: listed_def shutdown_tasks)

lemma listed_emit: "listed (emit e s) = listed s"
  by (simp add: listed_def)

lemma listed_cong:
  assumes "tasks s' = tasks s" and "scratch s' = scratch s"
  shows "listed s' = listed s"
  using assms by (simp add: listed_def)

lemma listed_update:
  assumes "listed s" and "scratch s' = scratch s"
    and "tasks s' = (tasks s)[i := t]"
    and "\<forall>es. awaiting t = Await_rm es \<longrightarrow> scratch s = Dir es"
  shows "listed s'"
  unfolding listed_def
proof (intro ballI allI impI)
  fix u es
  assume u: "u \<in> set (tasks s')" and a: "awaiting u = Await_rm es"
  from u assms(3) have "u = t \<or> u \<in> set (tasks s)"
    using set_update_subset_insert [of "tasks s" i t] by auto
  then show "\<exists>xs. scratch s' = Dir xs \<and> set xs \<subseteq> set es"
  proof
    assume "u = t"
    with a assms(2,4) show ?thesis by auto
  next
    assume "u \<in> set (tasks s)"
    with a assms(1,2) show ?thesis by (simp add: listed_def)
  qed
qed

lemma listed_shrink:
  assumes "listed s" and "tasks s' = tasks s"
    and "\<forall>xs. scratch s = Dir xs \<longrightarrow> (\<exists>ys. scratch s' = Dir ys \<and> set ys \<subseteq> set xs)"
  shows "listed s'"
  unfolding listed_def
proof (intro ballI allI impI)
  fix u es
  assume "u \<in> set (tasks s')" and "awaiting u = Await_rm es"
  with assms(1,2) have "\<exists>xs. scratch s = Dir xs \<and> set xs \<subseteq> set es"
    by (simp add: listed_def)
  then obtain xs where xs: "scratch s = Dir xs" "set xs \<subseteq> set es"
    by blast
  with assms(3) obtain ys where "scratch s' = Dir ys" "set ys \<subseteq> set xs" by blast
  with xs show "\<exists>xs. scratch s' = Dir xs \<and> set xs \<subseteq> set es" by auto
qed

lemma settle_listed:
  assumes "listed s"
  shows "listed (settle i shutdown_resume s)"
proof (cases "i < length (tasks s)")
  case False
  with assms show ?thesis by (simp add: settle_def)
next
  case True
  let ?t = "tasks s ! i"
  show ?thesis
  proof (cases "awaiting ?t")
    case Await_close
    show ?thesis
    proof (cases "client s \<and> destroyed s")
      case True
      have "listed (settle i shutdown_resume s) = listed s"
        using True Await_close \<open>i < length (tasks s)\<close>
        by (intro listed_cong) (simp_all add: resume_defs Let_def)
      with assms show ?thesis by simp
    next
      case False
      with Await_close \<open>i < length (tasks s)\<close> show ?thesis
        by (intro listed_update [OF assms, where i = i and t = "?t\<lparr>awaiting :=
              if client s then Await_grace else Await_readdir\<rparr>"])
          (auto simp: resume_defs Let_def)
    qed
  next
    case Await_grace
    with True show ?thesis
      by (intro listed_update [OF assms, where i = i and t = "?t\<lparr>awaiting := Await_readdir\<rparr>"])
        (simp_all add: resume_defs Let_def)
  next
    case Await_readdir
    show ?thesis
    proof (cases "\<exists>xs. scratch s = Dir xs \<and> xs \<noteq> []")
      case True
      then obtain xs where xs: "scratch s = Dir xs" "xs \<noteq> []" by blast
      with Await_readdir \<open>i < length (tasks s)\<close> show ?thesis
        by (intro listed_update [OF assms, where i = i and t = "?t\<lparr>awaiting := Await_rm xs\<rparr>"])
          (simp_all add: resume_defs Let_def)
    next
      case False
      with Await_readdir \<open>i < length (tasks s)\<close> show ?thesis
        by (intro listed_shrink [OF assms]; cases "scratch s")
          (simp_all add: resume_defs Let_def)
    qed
  next
    case (Await_rm es)
    with True show ?thesis
      by (intro listed_shrink [OF assms]; cases "scratch s")
        (auto simp: resume_defs Let_def)
  qed
qed

lemma reject_listed:
  assumes "listed s"
  shows "listed (settle i (\<lambda>p code. shutdown_rm_rejected p code gone) s)"
proof (cases "i < length (tasks s)")
  case False
  with assms show ?thesis by (simp add: settle_def)
next
  case True
  let ?t = "tasks s ! i"
  show ?thesis
  proof (cases "awaiting ?t")
    case Await_close
    with True show ?thesis
      by (intro listed_update [OF assms, where i = i and t = "?t\<lparr>awaiting := Await_close\<rparr>"])
        (simp_all add: resume_defs Let_def)
  next
    case Await_grace
    with True show ?thesis
      by (intro listed_update [OF assms, where i = i and t = "?t\<lparr>awaiting := Await_grace\<rparr>"])
        (simp_all add: resume_defs Let_def)
  next
    case Await_readdir
    with True show ?thesis
      by (intro listed_update [OF assms, where i = i and t = "?t\<lparr>awaiting := Await_readdir\<rparr>"])
        (simp_all add: resume_defs Let_def)
  next
    case (Await_rm es)
    with True show ?thesis
      by (intro listed_shrink [OF assms]; cases "scratch s")
        (auto simp: resume_defs Let_def)
  qed
qed


lemma list_ex_exit_map_Rm [simp]: "\<not> list_ex is_exit (map Rm es)"
  by (induction es) simp_all

lemma completed_emit: "\<not> is_exit e \<Longrightarrow> completed (emit e s) = completed s"
  by (simp add: completed_def)

lemma completed_shutdown: "completed (shutdown code s) = completed s"
  by (simp add: completed_def shutdown_trace)

lemma settle_clean:
  assumes "listed s" and "\<not> completed s"
  shows "(completed (settle i shutdown_resume s) \<longrightarrow> exited (settle i shutdown_resume s) \<noteq> None)
    \<and> (completed (settle i shutdown_resume s) \<and>
         Print Cleanup_error \<notin> set (trace (settle i shutdown_resume s)) \<longrightarrow>
       scratch (settle i shutdown_resume s) = Absent \<or>
       scratch (settle i shutdown_resume s) = Dir [])"
proof (cases "i < length (tasks s)")
  case False
  with assms(2) show ?thesis by (simp add: settle_def)
next
  case True
  let ?t = "tasks s ! i"
  show ?thesis
  proof (cases "awaiting ?t")
    case Await_close
    with True assms(2) show ?thesis
      by (simp add: resume_defs Let_def completed_def)
  next
    case Await_grace
    with True assms(2) show ?thesis
      by (simp add: resume_defs Let_def completed_def)
  next
    case Await_readdir
    with True assms(2) show ?thesis
      by (cases "scratch s") (simp_all add: resume_defs Let_def completed_def)
  next
    case (Await_rm es)
    from True have "?t \<in> set (tasks s)" by simp
    with assms(1) Await_rm have "\<exists>xs. scratch s = Dir xs \<and> set xs \<subseteq> set es"
      by (simp add: listed_def)
    then obtain xs where xs: "scratch s = Dir xs" "set xs \<subseteq> set es" by blast
    then have "filter (\<lambda>e. e \<notin> set es) xs = []"
      by (auto simp: filter_empty_conv)
    with True Await_rm xs show ?thesis
      by (simp add: resume_defs Let_def completed_def)
  qed
qed

lemma reject_clean:
  assumes "\<not> completed s"
  shows "(completed (settle i (\<lambda>p code. shutdown_rm_rejected p code gone) s) \<longrightarrow>
        exited (settle i (\<lambda>p code. shutdown_rm_rejected p code gone) s) \<noteq> None)
    \<and> (completed (settle i (\<lambda>p code. shutdown_rm_rejected p code gone) s) \<longrightarrow>
        Print Cleanup_error \<in> set (trace (settle i (\<lambda>p code. shutdown_rm_rejected p code gone) s)))"
proof (cases "i < length (tasks s)")
  case False
  with assms show ?thesis by (simp add: settle_def)
next
  case True
  with assms show ?thesis
    by (cases "awaiting (tasks s ! i)") (simp_all add: resume_defs Let_def completed_def)
qed

lemma completed_ontorrent: "completed (ontorrent files s) = completed s"
  by (cases "find_video files")
    (simp_all add: completed_def ontorrent_def shutdown_trace Let_def)

lemma listed_ontorrent:
  assumes li: "listed s"
  shows "listed (ontorrent files s)"
  proof (cases "find_video files")
    case None
    let ?s1 = "emit (Print No_video_file) (emit (Print Torrent_name) (s\<lparr>torrent := True\<rparr>))"
    have "listed ?s1 = listed s" by (rule listed_cong) simp_all
    with li have l2: "listed (shutdown 1 ?s1)" by (simp add: listed_shutdown)
    have "listed ((emit Uncaught_exception (shutdown 1 ?s1))\<lparr>exited := Some 1\<rparr>) =
        listed (shutdown 1 ?s1)"
      by (rule listed_cong) simp_all
    with l2 None show ?thesis by (simp add: ontorrent_def Let_def)
  next
    case (Some video)
    have "listed (ontorrent files s) = listed s"
      using Some by (intro listed_cong) (simp_all add: ontorrent_def Let_def)
    with li show ?thesis by simp
  qed

lemma step_cleanup_inv:
  assumes "cleanup_inv s" and "\<not> is_write e"
  shows "cleanup_inv (step e s)"
proof (cases "exited s = None")
  case False
  with assms show ?thesis by (simp add: step_def)
next
  case True
  with assms have nc: "\<not> completed s" and li: "listed s"
    by (auto simp: cleanup_inv_def)
  show ?thesis
  proof (cases e)
    case (Mkdir_done ok)
    have "listed (startup ok s)"
      using li by (auto simp: listed_def startup_def Let_def)
    with Mkdir_done True nc li show ?thesis
      by (simp add: step_def cleanup_inv_def completed_def startup_def Let_def)
  next
    case (Torrent_ready files)
    with True nc li listed_ontorrent [OF li, of files] show ?thesis
      by (simp add: step_def cleanup_inv_def completed_ontorrent)
  next
    case (Resume i)
    with True li nc settle_clean [OF li nc, of i] settle_listed [OF li, of i] show ?thesis
      by (simp add: step_def cleanup_inv_def)
  next
    case (Rm_rejected i gone)
    with True li nc reject_clean [OF nc, of i gone] reject_listed [OF li, of i gone] show ?thesis
      by (auto simp: step_def cleanup_inv_def)
  next
    case (Client_error message)
    have "listed (shutdown 1 (emit (Print (Client_error_line message)) s))"
      using li by (simp add: listed_shutdown listed_emit)
    moreover have "\<not> completed (shutdown 1 (emit (Print (Client_error_line message)) s))"
      using nc by (simp add: completed_shutdown completed_emit)
    ultimately show ?thesis
      using Client_error True assms by (simp add: step_def cleanup_inv_def)
  next
    case (Player_exit code)
    have "listed (shutdown 0 (emit (Print (VLC_exited code)) s))"
      using li by (simp add: listed_shutdown listed_emit)
    moreover have "\<not> completed (shutdown 0 (emit (Print (VLC_exited code)) s))"
      using nc by (simp add: completed_shutdown completed_emit)
    ultimately show ?thesis
      using Player_exit True assms by (simp add: step_def cleanup_inv_def)
  next
    case Sigint
    have "listed (shutdown 0 (emit (Print SIGINT_received) s))"
      using li by (simp add: listed_shutdown listed_emit)
    moreover have "\<not> completed (shutdown 0 (emit (Print SIGINT_received) s))"
      using nc by (simp add: completed_shutdown completed_emit)
    ultimately show ?thesis
      using Sigint True by (simp add: step_def cleanup_inv_def)
  qed (use True assms in \<open>simp_all add: step_def cleanup_inv_def completed_def listed_def
         callback_defs Let_def split: option.splits\<close>)
qed

lemma run_cleanup_inv:
  "cleanup_inv s \<Longrightarrow> \<forall>e \<in> set es. \<not> is_write e \<Longrightarrow> cleanup_inv (run es s)"
  by (induction es arbitrary: s) (simp_all add: step_cleanup_inv)


lemma scratch_ontorrent: "scratch (ontorrent files s) = scratch s"
  by (cases "find_video files") (simp_all add: ontorrent_def Let_def)

lemma add_entry_present: "add_entry name d \<noteq> Absent"
  by (cases d) simp_all

lemma settle_present:
  assumes "scratch s \<noteq> Absent"
  shows "scratch (settle i shutdown_resume s) \<noteq> Absent"
    and "scratch (settle i (\<lambda>p code. shutdown_rm_rejected p code gone) s) \<noteq> Absent"
  using assms
  by (cases "scratch s"; cases "awaiting (tasks s ! i)";
      simp add: resume_defs Let_def)+

lemma step_present:
  assumes "scratch s \<noteq> Absent"
  shows "scratch (step e s) \<noteq> Absent"
  using assms
  by (cases e)
    (simp_all add: step_def settle_present scratch_ontorrent add_entry_present startup_def
      onlistening_def launchPlayer_def logStreamError_def Let_def split: option.splits)

lemma run_present: "scratch s \<noteq> Absent \<Longrightarrow> scratch (run es s) \<noteq> Absent"
  by (induction es arbitrary: s) (simp_all add: step_present)


lemma readdir_absent:
  assumes "exited s = None" and "i < length (tasks s)"
    and "awaiting (tasks s ! i) = Await_readdir" and "scratch s = Absent"
  shows "step (Resume i) s =
    (emit (Exit (exitCode (tasks s ! i))) s)\<lparr>exited := Some (exitCode (tasks s ! i))\<rparr>"
  using assms by (simp add: step_def resume_defs Let_def)

text \<open>
  C3, as the code behaves. \<open>shutdown\<close> removes the entries of the scratch directory, never
  the directory: a directory that exists is still there after any run, and after a
  completed shutdown that reported no cleanup error it is empty (or was never there),
  provided nothing was written into it once the shutdown had begun. When \<open>readdir\<close>
  finds no directory, that is tolerated: nothing is reported and the process exits with
  the code of the shutdown.
\<close>

theorem scratch_dir_emptied_not_removed:
  "(scratch s \<noteq> Absent \<longrightarrow> scratch (run es s) \<noteq> Absent)
   \<and> (tasks s = [] \<and> \<not> completed s \<and> (\<forall>e \<in> set es. \<not> is_write e) \<and>
       completed (run es s) \<and> Print Cleanup_error \<notin> set (trace (run es s)) \<longrightarrow>
       scratch (run es s) = Absent \<or> scratch (run es s) = Dir [])
   \<and> (exited s' = None \<and> i < length (tasks s') \<and> awaiting (tasks s' ! i) = Await_readdir \<and>
       scratch s' = Absent \<longrightarrow>
       step (Resume i) s' =
         (emit (Exit (exitCode (tasks s' ! i))) s')\<lparr>exited := Some (exitCode (tasks s' ! i))\<rparr>)"
proof (intro conjI impI)
  assume "scratch s \<noteq> Absent"
  then show "scratch (run es s) \<noteq> Absent" by (rule run_present)
next
  assume a: "tasks s = [] \<and> \<not> completed s \<and> (\<forall>e \<in> set es. \<not> is_write e) \<and>
       completed (run es s) \<and> Print Cleanup_error \<notin> set (trace (run es s))"
  then have "cleanup_inv s" by (simp add: cleanup_inv_def listed_def)
  with a have "cleanup_inv (run es s)" by (intro run_cleanup_inv) simp_all
  with a show "scratch (run es s) = Absent \<or> scratch (run es s) = Dir []"
    by (simp add: cleanup_inv_def)
next
  assume "exited s' = None \<and> i < length (tasks s') \<and> awaiting (tasks s' ! i) = Await_readdir \<and>
       scratch s' = Absent"
  then show "step (Resume i) s' =
         (emit (Exit (exitCode (tasks s' ! i))) s')\<lparr>exited := Some (exitCode (tasks s' ! i))\<rparr>"
    by (intro readdir_absent) simp_all
qed

text \<open>
  A session in which the library stored \<open>movie.mkv\<close>, ended by the player; and a SIGINT
  before the directory was created.
\<close>

theorem scratch_dir_emptied_not_removed_witness:
  "scratch (run (playing @ [Wrote ''movie.mkv'']) (init Absent)) = Dir [''movie.mkv'']
   \<and> completed (run [Player_exit (Some 0), Resume 0, Resume 0, Resume 0, Resume 0]
        (run (playing @ [Wrote ''movie.mkv'']) (init Absent)))
   \<and> scratch (run [Player_exit (Some 0), Resume 0, Resume 0, Resume 0, Resume 0]
        (run (playing @ [Wrote ''movie.mkv'']) (init Absent))) = Dir []
   \<and> scratch (run [Sigint] (init Absent)) = Absent
   \<and> trace (step (Resume 0) (run [Sigint] (init Absent))) =
        [Print SIGINT_received, Print Shutting_down, Readdir, Exit 0]
   \<and> exited (step (Resume 0) (run [Sigint] (init Absent))) = Some 0"
proof -
  let ?s = "run (playing @ [Wrote ''movie.mkv'']) (init Absent)"
  let ?es = "[Player_exit (Some 0), Resume 0, Resume 0, Resume 0, Resume 0]"
  let ?s' = "run [Sigint] (init Absent)"
  have s: "scratch ?s = Dir [''movie.mkv'']" "tasks ?s = []" "\<not> completed ?s"
    by (simp_all add: run_eval completed_def)
  have es: "\<forall>e \<in> set ?es. \<not> is_write e"
    by simp
  have r: "completed (run ?es ?s)" "Print Cleanup_error \<notin> set (trace (run ?es ?s))"
    by (simp_all add: run_eval completed_def)
  have s': "exited ?s' = None" "0 < length (tasks ?s')" "awaiting (tasks ?s' ! 0) = Await_readdir"
    "scratch ?s' = Absent" "exitCode (tasks ?s' ! 0) = 0"
    "trace ?s' = [Print SIGINT_received, Print Shutting_down, Readdir]"
    by (simp_all add: run_eval)
  note th = scratch_dir_emptied_not_removed [of ?s ?es ?s' 0]
  from th s(1) have a: "scratch (run ?es ?s) \<noteq> Absent" by simp
  from th s(2,3) es r have "scratch (run ?es ?s) = Absent \<or> scratch (run ?es ?s) = Dir []"
    by blast
  with a have b: "scratch (run ?es ?s) = Dir []" by simp
  from th s'(1-4) have c: "step (Resume 0) ?s' =
      (emit (Exit (exitCode (tasks ?s' ! 0))) ?s')\<lparr>exited := Some (exitCode (tasks ?s' ! 0))\<rparr>"
    by blast
  have d: "trace (step (Resume 0) ?s') = [Print SIGINT_received, Print Shutting_down, Readdir, Exit 0]"
    and e: "exited (step (Resume 0) ?s') = Some 0"
    unfolding c using s'(5,6) by simp_all
  from s(1) r(1) b s'(4) d e show ?thesis by blast
qed

text \<open>
  After a completed shutdown the directory that held \<open>movie.mkv\<close> is empty, and still
  present.
\<close>

theorem scratch_dir_still_present:
  "exited (run (playing @ [Wrote ''movie.mkv'', Player_exit (Some 0),
       Resume 0, Resume 0, Resume 0, Resume 0]) (init (Dir []))) = Some 0
   \<and> scratch (run (playing @ [Wrote ''movie.mkv'', Player_exit (Some 0),
       Resume 0, Resume 0, Resume 0, Resume 0]) (init (Dir []))) = Dir []
   \<and> scratch (run (playing @ [Wrote ''movie.mkv'', Player_exit (Some 0),
       Resume 0, Resume 0, Resume 0, Resume 0]) (init (Dir []))) \<noteq> Absent
   \<and> Print Cleaned \<in> set (trace (run (playing @ [Wrote ''movie.mkv'', Player_exit (Some 0),
       Resume 0, Resume 0, Resume 0, Resume 0]) (init (Dir []))))"
  by (simp add: run_eval)


section \<open>Stream errors\<close>

lemma logStreamError_logged_once:
  assumes "logged_once s"
  shows "logged_once (logStreamError message s)"
  using assms by (auto simp: logged_once_def logStreamError_def)

lemma logged_once_cong:
  assumes "filter is_hiccup (trace s') = filter is_hiccup (trace s)"
    and "streamErrorLogged s' = streamErrorLogged s"
  shows "logged_once s' = logged_once s"
proof -
  have "\<And>m tr. (Print (Stream_hiccup m) \<in> set tr) = (Print (Stream_hiccup m) \<in> set (filter is_hiccup tr))"
    by simp
  then have "\<And>m. (Print (Stream_hiccup m) \<in> set (trace s')) = (Print (Stream_hiccup m) \<in> set (trace s))"
    using assms(1) by metis
  with assms show ?thesis by (simp add: logged_once_def)
qed

lemma hiccups_map_Rm [simp]: "filter is_hiccup (map Rm es) = []"
  by (induction es) simp_all

lemma shutdown_hiccups:
  "filter is_hiccup (trace (shutdown code s)) = filter is_hiccup (trace s)"
  by (simp add: shutdown_defs Let_def)

lemma settle_hiccups:
  "filter is_hiccup (trace (settle i shutdown_resume s)) = filter is_hiccup (trace s)"
  "filter is_hiccup (trace (settle i (\<lambda>p code. shutdown_rm_rejected p code gone) s)) =
     filter is_hiccup (trace s)"
  "streamErrorLogged (settle i shutdown_resume s) = streamErrorLogged s"
  "streamErrorLogged (settle i (\<lambda>p code. shutdown_rm_rejected p code gone) s) =
     streamErrorLogged s"
  by (simp_all add: resume_defs Let_def split: pc.splits dir.splits)

lemma ontorrent_hiccups:
  "filter is_hiccup (trace (ontorrent files s)) = filter is_hiccup (trace s)"
  "streamErrorLogged (ontorrent files s) = streamErrorLogged s"
  by (cases "find_video files"; simp add: ontorrent_def Let_def shutdown_hiccups)+

lemma step_logged_once:
  assumes "logged_once s"
  shows "logged_once (step e s)"
proof (cases "\<exists>message. e = Stream_error message")
  case True
  with assms show ?thesis by (auto simp: step_def logStreamError_logged_once)
next
  case False
  have "logged_once (step e s) = logged_once s"
    using False
    by (intro logged_once_cong; cases e)
      (simp_all add: step_def shutdown_hiccups settle_hiccups ontorrent_hiccups startup_def
        onlistening_def launchPlayer_def Let_def split: option.splits)
  with assms show ?thesis by simp
qed

lemma run_logged_once: "logged_once s \<Longrightarrow> logged_once (run es s)"
  by (induction es arbitrary: s) (simp_all add: step_logged_once)

text \<open>
  C8, as the code behaves. There is one flag for all stream errors, not one per category:
  at most one stream error is ever printed, namely the first whose message contains
  \<open>prematurely\<close>; an error whose message does not contain it is never printed and leaves
  the state untouched. No stream error ends the process or starts a shutdown.
\<close>

theorem stream_error_logged_once_overall:
  "length (filter is_hiccup (trace (run es (init d)))) \<le> 1
   \<and> (\<forall>m. Print (Stream_hiccup m) \<in> set (trace (run es (init d))) \<longrightarrow>
         includes_str m ''prematurely'')
   \<and> (\<not> includes_str m1 ''prematurely'' \<longrightarrow> logStreamError m1 s1 = s1)
   \<and> (streamErrorLogged s2 \<longrightarrow> logStreamError m2 s2 = s2)
   \<and> (\<not> streamErrorLogged s3 \<and> includes_str m3 ''prematurely'' \<longrightarrow>
        trace (logStreamError m3 s3) = trace s3 @ [Print (Stream_hiccup m3)] \<and>
        streamErrorLogged (logStreamError m3 s3))
   \<and> exited (logStreamError m4 s4) = exited s4
   \<and> tasks (logStreamError m4 s4) = tasks s4"
proof -
  have "logged_once (init d)"
    by (simp add: logged_once_def init_def)
  then have "logged_once (run es (init d))"
    by (rule run_logged_once)
  then have "length (filter is_hiccup (trace (run es (init d)))) \<le> 1"
    and "\<forall>m. Print (Stream_hiccup m) \<in> set (trace (run es (init d))) \<longrightarrow>
         includes_str m ''prematurely''"
    by (simp_all add: logged_once_def)
  then show ?thesis by (simp add: logStreamError_def)
qed

text \<open>Two cancelled reads and an I/O failure: one line is printed.\<close>

theorem stream_error_logged_once_overall_witness:
  "filter is_hiccup (trace (run (playing @ [Stream_error ''closed prematurely'',
      Stream_error ''aborted prematurely'', Stream_error ''EIO: i/o error, read''])
      (init (Dir [])))) = [Print (Stream_hiccup ''closed prematurely'')]
   \<and> includes_str ''closed prematurely'' ''prematurely''
   \<and> \<not> includes_str ''EIO: i/o error, read'' ''prematurely''
   \<and> logStreamError ''EIO: i/o error, read'' (init (Dir [])) = init (Dir [])
   \<and> streamErrorLogged (logStreamError ''closed prematurely'' (init (Dir [])))
   \<and> logStreamError ''aborted prematurely'' (logStreamError ''closed prematurely'' (init (Dir [])))
       = logStreamError ''closed prematurely'' (init (Dir []))
   \<and> trace (logStreamError ''closed prematurely'' (init (Dir []))) =
       [Print (Stream_hiccup ''closed prematurely'')]"
proof -
  let ?es = "playing @ [Stream_error ''closed prematurely'',
      Stream_error ''aborted prematurely'', Stream_error ''EIO: i/o error, read'']"
  let ?s = "logStreamError ''closed prematurely'' (init (Dir []))"
  have i1: "includes_str ''closed prematurely'' ''prematurely''"
    and i2: "\<not> includes_str ''EIO: i/o error, read'' ''prematurely''"
    by simp_all
  have n: "\<not> streamErrorLogged (init (Dir []))" "trace (init (Dir [])) = []"
    by (simp_all add: init_def)
  have f: "filter is_hiccup (trace (run ?es (init (Dir [])))) =
      [Print (Stream_hiccup ''closed prematurely'')]"
    by (simp add: run_eval)
  note th = stream_error_logged_once_overall [of ?es "Dir []" "''EIO: i/o error, read''"
      "init (Dir [])" ?s "''aborted prematurely''" "init (Dir [])" "''closed prematurely''"]
  from th i2 have a: "logStreamError ''EIO: i/o error, read'' (init (Dir [])) = init (Dir [])"
    by blast
  from th n(1) i1 have b: "trace ?s = trace (init (Dir [])) @ [Print (Stream_hiccup ''closed prematurely'')]"
    and c: "streamErrorLogged ?s"
    by blast+
  from th c have d: "logStreamError ''aborted prematurely'' ?s = ?s"
    by blast
  from b n(2) have e: "trace ?s = [Print (Stream_hiccup ''closed prematurely'')]"
    by simp
  from f i1 i2 a c d e show ?thesis by blast
qed

text \<open>
  An I/O failure whose message does not contain \<open>prematurely\<close> is not printed, neither as
  the first stream error nor later.
\<close>

theorem io_failure_never_logged:
  "Print (Stream_hiccup ''EIO: i/o error, read'') \<notin> set (trace (run
      (playing @ [Stream_error ''EIO: i/o error, read'']) (init (Dir []))))
   \<and> filter is_hiccup (trace (run
      (playing @ [Stream_error ''EIO: i/o error, read'']) (init (Dir [])))) = []
   \<and> filter is_hiccup (trace (run
      (playing @ [Stream_error ''closed prematurely'', Stream_error ''EIO: i/o error, read''])
      (init (Dir [])))) = [Print (Stream_hiccup ''closed prematurely'')]"
  by (simp add: run_eval)

end
